theory Spec2Isabelle
  imports Main "HOL-Library.AList"
begin

section \<open>Row identifiers and JavaScript objects keyed by them\<close>

text \<open>
  \<^verbatim>\<open>GridRowId\<close> is \<^verbatim>\<open>string | number\<close>. Numbers are modelled as integers (fractional
  values, NaN and magnitudes of \<open>10^21\<close> and more, whose decimal form is not plain digits,
  are outside the embedding). Equality of the datatype is JavaScript's \<^verbatim>\<open>===\<close> on these
  values: \<open>NumId 1\<close> and \<open>StrId ''1''\<close> differ.
\<close>

datatype GridRowId = NumId int | StrId string

definition digitChar :: "int \<Rightarrow> char" where
  "digitChar d = ''0123456789'' ! nat d"

text \<open>The decimal digits of a non-negative integer.\<close>

function decimalDigits :: "int \<Rightarrow> string" where
  "decimalDigits n =
     (if n < 10 then [digitChar n] else decimalDigits (n div 10) @ [digitChar (n mod 10)])"
  by pat_completeness auto
termination
  by (relation "measure nat") auto

declare decimalDigits.simps [simp del]

definition numberToString :: "int \<Rightarrow> string" where
  "numberToString n =
     (if n < 0 then CHR ''-'' # decimalDigits (- n) else decimalDigits n)"

text \<open>
  Used as a property name (\<^verbatim>\<open>lookup[id]\<close>), an id is converted to a string: a number by
  its decimal form, a string as it is. So \<^verbatim>\<open>lookup[1]\<close> and \<^verbatim>\<open>lookup['1']\<close> are the same
  property.
\<close>

fun propertyKey :: "GridRowId \<Rightarrow> string" where
  "propertyKey (NumId n) = numberToString n"
| "propertyKey (StrId s) = s"

definition digitValue :: "char \<Rightarrow> int option" where
  "digitValue c = (if c \<in> set ''0123456789'' then Some (of_char c - 48) else None)"

fun parseDigits :: "int \<Rightarrow> string \<Rightarrow> int option" where
  "parseDigits acc [] = Some acc"
| "parseDigits acc (c # cs) =
     (case digitValue c of None \<Rightarrow> None | Some d \<Rightarrow> parseDigits (10 * acc + d) cs)"

text \<open>
  An array index is a property name that is the canonical decimal form of an integer
  from \<open>0\<close> to \<open>2^32 - 2\<close>. The enumeration of an object's own properties lists these
  first, in ascending numeric order, and then the other names in the order in which
  the properties were created.
\<close>

definition arrayIndex :: "string \<Rightarrow> int option" where
  "arrayIndex k =
     (if k = [] then None
      else case parseDigits 0 k of
             None \<Rightarrow> None
           | Some n \<Rightarrow> if n < 4294967295 \<and> decimalDigits n = k then Some n else None)"

type_synonym js_object = "(string \<times> GridRowId) list"

text \<open>
  An object is the list of its own properties in creation order, with distinct names.
  \<^verbatim>\<open>obj[k] = v\<close> overwrites the value of an existing property in place and creates a
  new property at the end; \<^verbatim>\<open>delete obj[k]\<close> removes the property. The objects here are
  made by \<^verbatim>\<open>{}\<close> and by a spread, so they inherit the accessor \<^verbatim>\<open>__proto__\<close> of
  \<^verbatim>\<open>Object.prototype\<close>: an assignment to that name calls the setter, which ignores a
  string or a number, and creates no own property.
\<close>

definition setProperty :: "js_object \<Rightarrow> string \<Rightarrow> GridRowId \<Rightarrow> js_object" where
  "setProperty obj k v = (if k = ''__proto__'' then obj else AList.update k v obj)"

definition deleteProperty :: "js_object \<Rightarrow> string \<Rightarrow> js_object" where
  "deleteProperty obj k = AList.delete k obj"

definition indexOrder :: "string \<times> GridRowId \<Rightarrow> int" where
  "indexOrder e = (case arrayIndex (fst e) of Some n \<Rightarrow> n | None \<Rightarrow> 0)"

definition ownEntries :: "js_object \<Rightarrow> js_object" where
  "ownEntries obj =
     sort_key indexOrder (filter (\<lambda>e. arrayIndex (fst e) \<noteq> None) obj)
       @ filter (\<lambda>e. arrayIndex (fst e) = None) obj"

definition objectValues :: "js_object \<Rightarrow> GridRowId list" where
  "objectValues obj = map snd (ownEntries obj)"

text \<open>The spread \<^verbatim>\<open>{ ...obj }\<close> creates the properties of the copy in enumeration order.\<close>

definition objectSpread :: "js_object \<Rightarrow> js_object" where
  "objectSpread obj = ownEntries obj"

section \<open>JavaScript arrays\<close>

text \<open>\<^verbatim>\<open>xs.indexOf(x)\<close> and \<^verbatim>\<open>xs.findIndex((y) => y === x)\<close>: the first position, or \<open>-1\<close>.\<close>

fun indexOf :: "'a list \<Rightarrow> 'a \<Rightarrow> int" where
  "indexOf [] x = -1"
| "indexOf (y # ys) x =
     (if y = x then 0 else (let i = indexOf ys x in if i < 0 then -1 else i + 1))"

text \<open>
  The arguments of \<^verbatim>\<open>indexOf\<close> in \<^verbatim>\<open>selectRowRange\<close> can be \<^verbatim>\<open>undefined\<close>, which no
  element of an array of row ids equals.
\<close>

definition indexOfMaybe :: "GridRowId list \<Rightarrow> GridRowId option \<Rightarrow> int" where
  "indexOfMaybe xs v = (case v of None \<Rightarrow> -1 | Some x \<Rightarrow> indexOf xs x)"

text \<open>\<^verbatim>\<open>xs[i]\<close>: \<^verbatim>\<open>undefined\<close> (here \<open>None\<close>) outside the array.\<close>

definition arrayGet :: "'a list \<Rightarrow> int \<Rightarrow> 'a option" where
  "arrayGet xs i = (if 0 \<le> i \<and> i < int (length xs) then Some (xs ! nat i) else None)"

text \<open>\<^verbatim>\<open>xs.slice(start, end)\<close>: a negative bound counts from the end of the array.\<close>

definition arraySlice :: "'a list \<Rightarrow> int \<Rightarrow> int \<Rightarrow> 'a list" where
  "arraySlice xs start end =
     (let len = int (length xs);
          k = (if start < 0 then max (len + start) 0 else min start len);
          final = (if end < 0 then max (len + end) 0 else min end len)
      in take (nat (final - k)) (drop (nat k) xs))"

section \<open>Props, events and state of the hook\<close>

datatype GridInputSelectionModel = SingleId GridRowId | IdArray "GridRowId list"

text \<open>
  The props that \<^verbatim>\<open>useGridSelection\<close> reads. An absent prop is \<open>None\<close>; an absent flag is
  \<open>False\<close>. \<open>isRowSelectable\<close> stands for the prop composed with
  \<^verbatim>\<open>apiRef.current.getRowParams\<close>, which builds the parameters of the row with that id.
\<close>

record props =
  checkboxSelection :: bool
  selectionModel :: "GridInputSelectionModel option"
  disableMultipleSelection :: bool
  disableSelectionOnClick :: bool
  isRowSelectable :: "(GridRowId \<Rightarrow> bool) option"

record mouse_event =
  shiftKey :: bool
  ctrlKey :: bool
  metaKey :: bool

text \<open>
  The state the hook works on: \<^verbatim>\<open>state.selection\<close>, the rows lookup (which property
  names hold a row), the visible sorted row ids, the ref \<^verbatim>\<open>lastRowToggled\<close>, and the
  log of the models passed to \<^verbatim>\<open>setSelectionModel\<close>, one entry for each invocation.
\<close>

record grid_state =
  selection :: "GridRowId list"
  rowsLookup :: "string \<Rightarrow> bool"
  visibleSortedRowIds :: "GridRowId list"
  lastRowToggled :: "GridRowId option"
  setSelectionModelCalls :: "GridRowId list list"

text \<open>
  Modelled from the spec: \<^verbatim>\<open>gridSelectionStateSelector\<close> (gridSelectionSelector.ts) reads
  the selection model, the state slice \<^verbatim>\<open>selection\<close> that \<^verbatim>\<open>setSelectionModel\<close> writes.
\<close>

definition gridSelectionStateSelector :: "grid_state \<Rightarrow> GridRowId list" where
  "gridSelectionStateSelector s = selection s"

text \<open>
  Modelled from the spec: \<^verbatim>\<open>visibleSortedGridRowIdsSelector\<close> (the filter feature) gives
  the row ids in the visible sorted order, after filtering and sorting.
\<close>

definition visibleSortedGridRowIdsSelector :: "grid_state \<Rightarrow> GridRowId list" where
  "visibleSortedGridRowIdsSelector s = visibleSortedRowIds s"

text \<open>
  Modelled from the spec: \<^verbatim>\<open>selectedIdsLookupSelector\<close> (gridSelectionSelector.ts) gives
  the selection lookup, "a derived mapping from row identifier to itself": the object
  with one property per selected id, created in the order of the selection model.
\<close>

definition selectedIdsLookupSelector :: "grid_state \<Rightarrow> js_object" where
  "selectedIdsLookupSelector s =
     fold (\<lambda>rowId lookup. setProperty lookup (propertyKey rowId) rowId) (selection s) []"

text \<open>
  Modelled from the spec: \<^verbatim>\<open>apiRef.current.getRow\<close> (useGridRows) is truthy when the id
  is in the row set; \<^verbatim>\<open>undefined\<close> is the id of no row.
\<close>

definition getRow :: "grid_state \<Rightarrow> GridRowId option \<Rightarrow> bool" where
  "getRow s v = (case v of None \<Rightarrow> False | Some rowId \<Rightarrow> rowsLookup s (propertyKey rowId))"

definition canHaveMultipleSelection :: "props \<Rightarrow> bool" where
  "canHaveMultipleSelection p = (\<not> disableMultipleSelection p \<or> checkboxSelection p)"

definition rowSelectable :: "props \<Rightarrow> GridRowId \<Rightarrow> bool" where
  "rowSelectable p rowId = (case isRowSelectable p of None \<Rightarrow> True | Some f \<Rightarrow> f rowId)"

definition orDefault :: "bool \<Rightarrow> bool option \<Rightarrow> bool" where
  "orDefault d v = (case v of None \<Rightarrow> d | Some b \<Rightarrow> b)"

section \<open>The selection API\<close>

text \<open>The memoized \<^verbatim>\<open>propSelectionModel\<close> of lines 47 to 57.\<close>

definition propSelectionModel :: "props \<Rightarrow> GridRowId list option" where
  "propSelectionModel p =
     (case selectionModel p of
        None \<Rightarrow> None
      | Some (IdArray ids) \<Rightarrow> Some ids
      | Some (SingleId rowId) \<Rightarrow> Some [rowId])"

text \<open>
  Modelled from the spec: the controlled-state mechanism (\<^verbatim>\<open>useGridControlState\<close> and the
  \<^verbatim>\<open>setGridState\<close> of \<^verbatim>\<open>useGridState\<close>, not under src/), which "accepts externally
  driven overrides". The effect of lines 275 to 283 registers the selection with it,
  with \<^verbatim>\<open>propSelectionModel\<close> as the model of the prop; it runs before every other effect
  and before any event, so the registered model is the one of the current props. While
  the prop \<^verbatim>\<open>selectionModel\<close> is set, \<^verbatim>\<open>setGridState\<close> refuses a selection that is not
  the very array of the prop, and the state keeps what it had; the array of the prop
  itself is written, and so is every array when the prop is not set.
\<close>

definition writeRefused :: "props \<Rightarrow> bool \<Rightarrow> bool" where
  "writeRefused p isPropModel = (propSelectionModel p \<noteq> None \<and> \<not> isPropModel)"

text \<open>
  \<^verbatim>\<open>setSelectionModel\<close> compares the references of the current and the new model and
  calls \<^verbatim>\<open>setGridState\<close> and \<^verbatim>\<open>forceUpdate\<close> when they differ. When they are the same
  object, \<^verbatim>\<open>state.selection\<close> holds the new model already, so without a refusal
  \<^verbatim>\<open>state.selection\<close> has the value of the argument afterwards in both branches.
  Arrays are values here, so the last argument tells whether the array is the object of
  the prop: the effect of lines 305 to 311 passes that one; every array that the hook
  builds is a new object, and the array that a caller gives to \<^verbatim>\<open>selectRows\<close> is taken
  to be an object of the caller. Each invocation is logged, refused or not.
\<close>

definition setSelectionModel ::
  "props \<Rightarrow> grid_state \<Rightarrow> GridRowId list \<Rightarrow> bool \<Rightarrow> grid_state" where
  "setSelectionModel p s model isPropModel =
     (let logged = s\<lparr>setSelectionModelCalls := setSelectionModelCalls s @ [model]\<rparr>
      in if writeRefused p isPropModel then logged else logged\<lparr>selection := model\<rparr>)"

definition isRowSelected :: "grid_state \<Rightarrow> GridRowId \<Rightarrow> bool" where
  "isRowSelected s rowId = (rowId \<in> set (gridSelectionStateSelector s))"

text \<open>The array that the toggling branch of \<^verbatim>\<open>selectRow\<close> builds (lines 84 to 89).\<close>

definition selectRowNewSelection :: "grid_state \<Rightarrow> GridRowId \<Rightarrow> bool \<Rightarrow> GridRowId list" where
  "selectRowNewSelection s rowId isSelected =
     filter (\<lambda>el. el \<noteq> rowId) (gridSelectionStateSelector s)
       @ (if isSelected then [rowId] else [])"

definition selectRow ::
  "props \<Rightarrow> grid_state \<Rightarrow> GridRowId \<Rightarrow> bool option \<Rightarrow> bool option \<Rightarrow> grid_state" where
  "selectRow p s rowId isSelectedArg resetSelectionArg =
     (let isSelected = orDefault True isSelectedArg;
          resetSelection = orDefault False resetSelectionArg
      in if \<not> rowSelectable p rowId then s
         else
           let s1 = s\<lparr>lastRowToggled := Some rowId\<rparr>
           in if resetSelection
              then setSelectionModel p s1 (if isSelected then [rowId] else []) False
              else
                let newSelection = selectRowNewSelection s1 rowId isSelected;
                    isSelectionValid = (length newSelection < 2 \<or> canHaveMultipleSelection p)
                in if isSelectionValid then setSelectionModel p s1 newSelection False
                   else s1)"

text \<open>The array that \<^verbatim>\<open>selectRows\<close> builds before its guard (lines 104 to 124).\<close>

definition selectRowsNewSelection ::
  "props \<Rightarrow> grid_state \<Rightarrow> GridRowId list \<Rightarrow> bool \<Rightarrow> bool \<Rightarrow> GridRowId list" where
  "selectRowsNewSelection p s ids isSelected resetSelection =
     (let selectableIds = (case isRowSelectable p of None \<Rightarrow> ids | Some f \<Rightarrow> filter f ids)
      in if resetSelection then (if isSelected then selectableIds else [])
         else
           let selectionLookup = objectSpread (selectedIdsLookupSelector s)
           in objectValues
                (fold (\<lambda>rowId lookup.
                         if isSelected then setProperty lookup (propertyKey rowId) rowId
                         else deleteProperty lookup (propertyKey rowId))
                   selectableIds selectionLookup))"

definition selectRows ::
  "props \<Rightarrow> grid_state \<Rightarrow> GridRowId list \<Rightarrow> bool option \<Rightarrow> bool option \<Rightarrow> grid_state" where
  "selectRows p s ids isSelectedArg resetSelectionArg =
     (let isSelected = orDefault True isSelectedArg;
          resetSelection = orDefault False resetSelectionArg;
          newSelection = selectRowsNewSelection p s ids isSelected resetSelection;
          isSelectionValid = (length newSelection < 2 \<or> canHaveMultipleSelection p)
      in if isSelectionValid then setSelectionModel p s newSelection False else s)"

definition selectRowRange ::
  "props \<Rightarrow> grid_state \<Rightarrow> GridRowId option \<Rightarrow> GridRowId option \<Rightarrow> bool option \<Rightarrow> bool option
     \<Rightarrow> grid_state" where
  "selectRowRange p s startId endId isSelectedArg resetSelection =
     (let isSelected = orDefault True isSelectedArg
      in if \<not> getRow s startId \<or> \<not> getRow s endId then s
         else
           let visibleRowIds = visibleSortedGridRowIdsSelector s;
               startIndex = indexOfMaybe visibleRowIds startId;
               endIndex = indexOfMaybe visibleRowIds endId;
               (start, end) =
                 (if startIndex > endIndex then (endIndex, startIndex)
                  else (startIndex, endIndex));
               rowsBetweenStartAndEnd = arraySlice visibleRowIds start (end + 1)
           in selectRows p s rowsBetweenStartAndEnd (Some isSelected) resetSelection)"

definition expandRowRangeSelection :: "props \<Rightarrow> grid_state \<Rightarrow> GridRowId \<Rightarrow> grid_state" where
  "expandRowRangeSelection p s rowId =
     (let startId = (case lastRowToggled s of None \<Rightarrow> rowId | Some a \<Rightarrow> a);
          isSelected = isRowSelected s rowId;
          endId =
            (if isSelected then
               let visibleRowIds = visibleSortedGridRowIdsSelector s;
                   startIndex = indexOf visibleRowIds startId;
                   endIndex = indexOf visibleRowIds rowId
               in if startIndex > endIndex then arrayGet visibleRowIds (endIndex + 1)
                  else arrayGet visibleRowIds (endIndex - 1)
             else Some rowId);
          s1 = s\<lparr>lastRowToggled := Some rowId\<rparr>
      in selectRowRange p s1 (Some startId) endId (Some (\<not> isSelected)) None)"

section \<open>Event handlers\<close>

definition handleRowClick :: "props \<Rightarrow> grid_state \<Rightarrow> GridRowId \<Rightarrow> mouse_event \<Rightarrow> grid_state" where
  "handleRowClick p s rowId event =
     (if disableSelectionOnClick p then s
      else
        let hasCtrlKey = (metaKey event \<or> ctrlKey event)
        in if shiftKey event \<and> (canHaveMultipleSelection p \<or> checkboxSelection p)
           then expandRowRangeSelection p s rowId
           else
             let isMultipleSelectionDisabled = (\<not> checkboxSelection p \<and> \<not> hasCtrlKey);
                 resetSelection = (\<not> canHaveMultipleSelection p \<or> isMultipleSelectionDisabled)
             in if resetSelection
                then selectRow p s rowId
                       (Some (if hasCtrlKey \<or> checkboxSelection p then \<not> isRowSelected s rowId
                              else True))
                       (Some True)
                else selectRow p s rowId (Some (\<not> isRowSelected s rowId)) (Some False))"

text \<open>
  The checkbox event carries the row id, the value of the checkbox and the shift key of
  the native event.
\<close>

definition handleRowSelectionCheckboxChange ::
  "props \<Rightarrow> grid_state \<Rightarrow> GridRowId \<Rightarrow> bool \<Rightarrow> bool \<Rightarrow> grid_state" where
  "handleRowSelectionCheckboxChange p s rowId checked shift =
     (if shift then expandRowRangeSelection p s rowId
      else selectRow p s rowId (Some checked) None)"

section \<open>Effects\<close>

text \<open>
  The effect of lines 275 to 283 is the registration that \<open>writeRefused\<close> accounts for.
  \<^verbatim>\<open>preventSelectionOnShift\<close> clears the text selection of the window and writes
  nothing to the state above. The other three effects follow.
\<close>

text \<open>The effect that runs when the rows lookup has changed (lines 285 to 303).\<close>

definition prunedLookup :: "grid_state \<Rightarrow> js_object \<times> bool" where
  "prunedLookup s =
     fold (\<lambda>rowId (selectionLookup, hasChanged).
             if \<not> rowsLookup s (propertyKey rowId)
             then (deleteProperty selectionLookup (propertyKey rowId), True)
             else (selectionLookup, hasChanged))
       (gridSelectionStateSelector s)
       (objectSpread (selectedIdsLookupSelector s), False)"

definition rowsChangedEffect :: "props \<Rightarrow> grid_state \<Rightarrow> grid_state" where
  "rowsChangedEffect p s =
     (case prunedLookup s of
        (selectionLookup, hasChanged) \<Rightarrow>
          if hasChanged then setSelectionModel p s (objectValues selectionLookup) False
          else s)"

text \<open>The effect that runs when the prop \<^verbatim>\<open>selectionModel\<close> has changed (lines 305 to 311).\<close>

definition propSelectionModelEffect :: "props \<Rightarrow> grid_state \<Rightarrow> grid_state" where
  "propSelectionModelEffect p s =
     (case propSelectionModel p of
        None \<Rightarrow> s
      | Some model \<Rightarrow> setSelectionModel p s model True)"

text \<open>The effect that runs when \<^verbatim>\<open>isRowSelectable\<close> has changed (lines 313 to 326).\<close>

definition isRowSelectableEffect :: "props \<Rightarrow> grid_state \<Rightarrow> grid_state" where
  "isRowSelectableEffect p s =
     (let currentSelection = gridSelectionStateSelector s
      in case isRowSelectable p of
           None \<Rightarrow> s
         | Some f \<Rightarrow>
             let newSelection = filter f currentSelection
             in if length newSelection < length currentSelection
                then setSelectionModel p s newSelection False else s)"

section \<open>Operations of the controller and sequences of them\<close>

text \<open>
  The calls, events and effects through which the hook changes the selection. The
  effect for changed rows runs on the state that holds the new rows lookup.
\<close>

datatype operation =
    SelectRow GridRowId "bool option" "bool option"
  | SelectRows "GridRowId list" "bool option" "bool option"
  | SelectRowRange "GridRowId option" "GridRowId option" "bool option" "bool option"
  | RowClick GridRowId mouse_event
  | RowSelectionCheckboxChange GridRowId bool bool
  | RowsChanged
  | SelectionModelPropChanged
  | IsRowSelectableChanged

fun perform :: "props \<Rightarrow> grid_state \<Rightarrow> operation \<Rightarrow> grid_state" where
  "perform p s (SelectRow rowId isSelected resetSelection) =
     selectRow p s rowId isSelected resetSelection"
| "perform p s (SelectRows ids isSelected resetSelection) =
     selectRows p s ids isSelected resetSelection"
| "perform p s (SelectRowRange startId endId isSelected resetSelection) =
     selectRowRange p s startId endId isSelected resetSelection"
| "perform p s (RowClick rowId event) = handleRowClick p s rowId event"
| "perform p s (RowSelectionCheckboxChange rowId checked shift) =
     handleRowSelectionCheckboxChange p s rowId checked shift"
| "perform p s RowsChanged = rowsChangedEffect p s"
| "perform p s SelectionModelPropChanged = propSelectionModelEffect p s"
| "perform p s IsRowSelectableChanged = isRowSelectableEffect p s"




section \<open>Example grids\<close>

definition r1 :: GridRowId where "r1 = StrId ''r1''"
definition r2 :: GridRowId where "r2 = StrId ''r2''"
definition r3 :: GridRowId where "r3 = StrId ''r3''"
definition r4 :: GridRowId where "r4 = StrId ''r4''"
definition r5 :: GridRowId where "r5 = StrId ''r5''"

definition rowsOf :: "GridRowId list \<Rightarrow> string \<Rightarrow> bool" where
  "rowsOf ids k = (k \<in> set (map propertyKey ids))"

text \<open>A grid whose rows are all visible, in the order given.\<close>

definition gridOf :: "GridRowId list \<Rightarrow> GridRowId list \<Rightarrow> GridRowId option \<Rightarrow> grid_state" where
  "gridOf visible selected anchor =
     \<lparr>selection = selected, rowsLookup = rowsOf visible, visibleSortedRowIds = visible,
      lastRowToggled = anchor, setSelectionModelCalls = []\<rparr>"

definition defaultProps :: props where
  "defaultProps =
     \<lparr>checkboxSelection = False, selectionModel = None, disableMultipleSelection = False,
      disableSelectionOnClick = False, isRowSelectable = None\<rparr>"

definition singleSelectionProps :: props where
  "singleSelectionProps = defaultProps\<lparr>disableMultipleSelection := True\<rparr>"

definition plainClick :: mouse_event where
  "plainClick = \<lparr>shiftKey = False, ctrlKey = False, metaKey = False\<rparr>"

definition controlledSingleSelectionProps :: props where
  "controlledSingleSelectionProps =
     singleSelectionProps\<lparr>selectionModel := Some (IdArray [r1, r2])\<rparr>"

definition controlledProps :: props where
  "controlledProps = defaultProps\<lparr>selectionModel := Some (IdArray [r1, r2])\<rparr>"

text \<open>Five rows, of which \<open>r4\<close> and \<open>r5\<close> are filtered out of the visible ones.\<close>

definition filteredGrid :: grid_state where
  "filteredGrid = (gridOf [r1, r2, r3, r4, r5] [] None)\<lparr>visibleSortedRowIds := [r1, r2, r3]\<rparr>"

definition allButR2 :: "GridRowId \<Rightarrow> bool" where
  "allButR2 rowId = (rowId \<noteq> r2)"

definition r2UnselectableProps :: props where
  "r2UnselectableProps = defaultProps\<lparr>isRowSelectable := Some allButR2\<rparr>"

section \<open>Well-formed lookups\<close>

text \<open>
  A lookup has distinct property names, and each property holds the id it is named
  after: \<^verbatim>\<open>lookup[id] = id\<close>.
\<close>

definition keyedById :: "js_object \<Rightarrow> bool" where
  "keyedById obj = (distinct (map fst obj) \<and> (\<forall>e \<in> set obj. fst e = propertyKey (snd e)))"

section \<open>Facts about arrays\<close>

lemma indexOf_lower: "-1 \<le> indexOf xs x"
  by (induction xs) (auto simp: Let_def)

lemma indexOf_upper: "indexOf xs x < int (length xs)"
  by (induction xs) (auto simp: Let_def)

lemma indexOf_absent: "x \<notin> set xs \<Longrightarrow> indexOf xs x = -1"
  by (induction xs) (auto simp: Let_def)

lemma indexOf_present: "x \<in> set xs \<Longrightarrow> 0 \<le> indexOf xs x \<and> xs ! nat (indexOf xs x) = x"
proof (induction xs)
  case Nil
  then show ?case by simp
next
  case (Cons y ys)
  show ?case
  proof (cases "y = x")
    case True
    then show ?thesis by simp
  next
    case False
    with Cons.prems have "x \<in> set ys" by simp
    with Cons.IH have ih: "0 \<le> indexOf ys x" "ys ! nat (indexOf ys x) = x" by simp_all
    from ih(1) have "nat (indexOf ys x + 1) = Suc (nat (indexOf ys x))" by simp
    with False ih show ?thesis by (simp add: Let_def)
  qed
qed

lemma arrayGet_None_iff: "arrayGet xs i = None \<longleftrightarrow> i < 0 \<or> int (length xs) \<le> i"
  by (auto simp: arrayGet_def)

lemma arraySlice_span:
  assumes "0 \<le> lo" "lo \<le> hi" "hi < int (length xs)"
  shows "arraySlice xs lo (hi + 1) = map (\<lambda>k. xs ! k) [nat lo ..< Suc (nat hi)]"
proof -
  have "arraySlice xs lo (hi + 1) = take (nat (hi + 1 - lo)) (drop (nat lo) xs)"
    using assms by (simp add: arraySlice_def Let_def min_def)
  also have "\<dots> = map (\<lambda>k. xs ! k) [nat lo ..< Suc (nat hi)]"
  proof (rule nth_equalityI)
    show "length (take (nat (hi + 1 - lo)) (drop (nat lo) xs))
            = length (map (\<lambda>k. xs ! k) [nat lo ..< Suc (nat hi)])"
      using assms by (simp del: upt_Suc add: min_def) linarith
  next
    fix i
    assume "i < length (take (nat (hi + 1 - lo)) (drop (nat lo) xs))"
    then have i: "i < nat (hi + 1 - lo)" by simp
    with assms have j: "i < Suc (nat hi) - nat lo" by linarith
    have "map (\<lambda>k. xs ! k) [nat lo ..< Suc (nat hi)] ! i = xs ! (nat lo + i)"
      using j by (rule nth_map_upt)
    moreover have "take (nat (hi + 1 - lo)) (drop (nat lo) xs) ! i = xs ! (nat lo + i)"
      using i assms by simp
    ultimately show "take (nat (hi + 1 - lo)) (drop (nat lo) xs) ! i
            = map (\<lambda>k. xs ! k) [nat lo ..< Suc (nat hi)] ! i"
      by simp
  qed
  finally show ?thesis .
qed

section \<open>Facts about objects\<close>

lemma set_ownEntries: "set (ownEntries obj) = set obj"
  by (auto simp: ownEntries_def)

lemma length_ownEntries: "length (ownEntries obj) = length obj"
proof -
  have "length (filter (\<lambda>e. arrayIndex (fst e) \<noteq> None) obj)
          + length (filter (\<lambda>e. \<not> arrayIndex (fst e) \<noteq> None) obj) = length obj"
    by (rule sum_length_filter_compl)
  then show ?thesis by (simp add: ownEntries_def)
qed

lemma distinct_ownEntries: "distinct obj \<Longrightarrow> distinct (ownEntries obj)"
  by (auto simp: ownEntries_def)

lemma distinct_keys_ownEntries:
  assumes "distinct (map fst obj)"
  shows "distinct (map fst (ownEntries obj))"
proof -
  from assms have "distinct obj" and inj: "inj_on fst (set obj)"
    by (simp_all add: distinct_map)
  then have "distinct (ownEntries obj)" by (simp add: distinct_ownEntries)
  with inj show ?thesis by (simp add: distinct_map set_ownEntries)
qed

lemma set_objectValues: "set (objectValues obj) = snd ` set obj"
  by (simp add: objectValues_def set_ownEntries)

lemma length_objectValues: "length (objectValues obj) = length obj"
  by (simp add: objectValues_def length_ownEntries)

lemma set_update_subset: "set (AList.update k v obj) \<subseteq> insert (k, v) (set obj)"
  by (induction obj) auto

lemma length_update_le: "length (AList.update k v obj) \<le> Suc (length obj)"
  by (induction obj) auto

lemma set_setProperty_subset: "set (setProperty obj k v) \<subseteq> insert (k, v) (set obj)"
  using set_update_subset [of k v obj] by (auto simp: setProperty_def)

lemma keys_setProperty:
  "fst ` set (setProperty obj k v)
     = (if k = ''__proto__'' then fst ` set obj else insert k (fst ` set obj))"
  by (simp add: setProperty_def dom_update)

lemma length_setProperty: "length (setProperty obj k v) \<le> Suc (length obj)"
  using length_update_le [of k v obj] by (simp add: setProperty_def)

lemma set_deleteProperty: "set (deleteProperty obj k) = {e \<in> set obj. fst e \<noteq> k}"
  unfolding deleteProperty_def by (auto simp: AList.delete_eq)

lemma length_deleteProperty: "length (deleteProperty obj k) \<le> length obj"
  unfolding deleteProperty_def by (simp add: AList.delete_eq)

lemma keyedById_empty: "keyedById []"
  by (simp add: keyedById_def)

lemma keyedById_setProperty:
  assumes "keyedById obj"
  shows "keyedById (setProperty obj (propertyKey v) v)"
proof -
  from assms have "distinct (map fst (setProperty obj (propertyKey v) v))"
    by (simp add: setProperty_def keyedById_def distinct_update)
  moreover have "\<forall>e \<in> set (setProperty obj (propertyKey v) v). fst e = propertyKey (snd e)"
    using assms set_setProperty_subset [of obj "propertyKey v" v]
    unfolding keyedById_def by auto
  ultimately show ?thesis by (simp add: keyedById_def)
qed

lemma keyedById_deleteProperty:
  assumes "keyedById obj"
  shows "keyedById (deleteProperty obj k)"
proof -
  from assms have "distinct (map fst (deleteProperty obj k))"
    unfolding deleteProperty_def keyedById_def by (simp add: distinct_delete)
  with assms show ?thesis by (simp add: keyedById_def set_deleteProperty)
qed

lemma keyedById_ownEntries: "keyedById obj \<Longrightarrow> keyedById (ownEntries obj)"
  by (simp add: keyedById_def distinct_keys_ownEntries set_ownEntries)


text \<open>Assigning and deleting a list of ids, one after the other.\<close>

lemma keyedById_fold_set:
  "keyedById obj \<Longrightarrow>
   keyedById (fold (\<lambda>rowId lookup. setProperty lookup (propertyKey rowId) rowId) ids obj)"
  by (induction ids arbitrary: obj) (simp_all add: keyedById_setProperty)

lemma keyedById_fold_delete:
  "keyedById obj \<Longrightarrow>
   keyedById (fold (\<lambda>rowId lookup. deleteProperty lookup (propertyKey rowId)) ids obj)"
  by (induction ids arbitrary: obj) (simp_all add: keyedById_deleteProperty)

lemma keys_fold_set:
  "fst ` set (fold (\<lambda>rowId lookup. setProperty lookup (propertyKey rowId) rowId) ids obj)
     = fst ` set obj \<union> (propertyKey ` set ids - {''__proto__''})"
  by (induction ids arbitrary: obj) (auto simp: keys_setProperty)

lemma keys_fold_delete:
  "fst ` set (fold (\<lambda>rowId lookup. deleteProperty lookup (propertyKey rowId)) ids obj)
     = fst ` set obj - propertyKey ` set ids"
  by (induction ids arbitrary: obj) (auto simp: set_deleteProperty)

lemma values_fold_set:
  "snd ` set (fold (\<lambda>rowId lookup. setProperty lookup (propertyKey rowId) rowId) ids obj)
     \<subseteq> snd ` set obj \<union> set ids"
proof (induction ids arbitrary: obj)
  case Nil
  then show ?case by simp
next
  case (Cons x xs)
  have "snd ` set (setProperty obj (propertyKey x) x) \<subseteq> insert x (snd ` set obj)"
    using set_setProperty_subset [of obj "propertyKey x" x] by auto
  with Cons.IH [of "setProperty obj (propertyKey x) x"] show ?case by auto
qed

lemma length_fold_set:
  "length (fold (\<lambda>rowId lookup. setProperty lookup (propertyKey rowId) rowId) ids obj)
     \<le> length obj + length ids"
proof (induction ids arbitrary: obj)
  case Nil
  then show ?case by simp
next
  case (Cons x xs)
  from Cons.IH [of "setProperty obj (propertyKey x) x"]
       length_setProperty [of obj "propertyKey x" x]
  show ?case by simp
qed

subsection \<open>The selection lookup\<close>

lemma keyedById_lookup: "keyedById (selectedIdsLookupSelector s)"
  unfolding selectedIdsLookupSelector_def by (rule keyedById_fold_set [OF keyedById_empty])

lemma keys_lookup:
  "fst ` set (selectedIdsLookupSelector s) = propertyKey ` set (selection s) - {''__proto__''}"
  unfolding selectedIdsLookupSelector_def by (simp add: keys_fold_set)

lemma values_lookup: "snd ` set (selectedIdsLookupSelector s) \<subseteq> set (selection s)"
  unfolding selectedIdsLookupSelector_def using values_fold_set [of "selection s" "[]"] by simp

lemma length_lookup: "length (selectedIdsLookupSelector s) \<le> length (selection s)"
  unfolding selectedIdsLookupSelector_def using length_fold_set [of "selection s" "[]"] by simp

section \<open>Facts about the selection API\<close>

lemma propSelectionModel_None: "propSelectionModel p = None \<longleftrightarrow> selectionModel p = None"
  by (simp add: propSelectionModel_def split: option.splits GridInputSelectionModel.splits)

lemma writeRefused_cases:
  "writeRefused p True = False"
  "writeRefused p False = (selectionModel p \<noteq> None)"
  by (simp_all add: writeRefused_def propSelectionModel_None)

lemma setSelectionModel_fields:
  "selection (setSelectionModel p s model isPropModel)
     = (if writeRefused p isPropModel then selection s else model)"
  "lastRowToggled (setSelectionModel p s model isPropModel) = lastRowToggled s"
  "rowsLookup (setSelectionModel p s model isPropModel) = rowsLookup s"
  "visibleSortedRowIds (setSelectionModel p s model isPropModel) = visibleSortedRowIds s"
  "setSelectionModelCalls (setSelectionModel p s model isPropModel)
     = setSelectionModelCalls s @ [model]"
  by (simp_all add: setSelectionModel_def Let_def)

lemma selectRowNewSelection_anchor:
  "selectRowNewSelection (s\<lparr>lastRowToggled := a\<rparr>) rowId isSelected
     = selectRowNewSelection s rowId isSelected"
  by (simp add: selectRowNewSelection_def gridSelectionStateSelector_def)


text \<open>The four ways a call of \<^verbatim>\<open>selectRow\<close> can go.\<close>

lemma selectRow_unselectable:
  "\<not> rowSelectable p rowId \<Longrightarrow> selectRow p s rowId isSelected resetSelection = s"
  by (simp add: selectRow_def Let_def)

lemma selectRow_reset:
  "rowSelectable p rowId \<Longrightarrow>
   selectRow p s rowId isSelected (Some True)
     = setSelectionModel p (s\<lparr>lastRowToggled := Some rowId\<rparr>)
         (if orDefault True isSelected then [rowId] else []) False"
  by (simp add: selectRow_def Let_def orDefault_def)

lemma selectRow_toggle_accepted:
  assumes "rowSelectable p rowId" "orDefault False resetSelection = False"
    and "length (selectRowNewSelection s rowId (orDefault True isSelected)) < 2
           \<or> canHaveMultipleSelection p"
  shows "selectRow p s rowId isSelected resetSelection
     = setSelectionModel p (s\<lparr>lastRowToggled := Some rowId\<rparr>)
         (selectRowNewSelection s rowId (orDefault True isSelected)) False"
  using assms by (auto simp: selectRow_def Let_def selectRowNewSelection_anchor)

lemma selectRow_toggle_rejected:
  assumes "rowSelectable p rowId" "orDefault False resetSelection = False"
    and "\<not> length (selectRowNewSelection s rowId (orDefault True isSelected)) < 2"
    and "\<not> canHaveMultipleSelection p"
  shows "selectRow p s rowId isSelected resetSelection = s\<lparr>lastRowToggled := Some rowId\<rparr>"
  using assms by (auto simp: selectRow_def Let_def selectRowNewSelection_anchor)

lemma selectRow_frame:
  "rowsLookup (selectRow p s rowId isSelected resetSelection) = rowsLookup s"
  "visibleSortedRowIds (selectRow p s rowId isSelected resetSelection) = visibleSortedRowIds s"
  by (simp_all add: selectRow_def Let_def setSelectionModel_def)

lemma selectRow_anchor_cases:
  "lastRowToggled (selectRow p s rowId isSelected resetSelection)
     = (if rowSelectable p rowId then Some rowId else lastRowToggled s)"
  by (simp add: selectRow_def Let_def setSelectionModel_def)

lemma selectRows_accepted:
  assumes "length (selectRowsNewSelection p s ids (orDefault True isSelected)
                     (orDefault False resetSelection)) < 2
           \<or> canHaveMultipleSelection p"
  shows "selectRows p s ids isSelected resetSelection
     = setSelectionModel p s
         (selectRowsNewSelection p s ids (orDefault True isSelected)
            (orDefault False resetSelection)) False"
  using assms by (auto simp: selectRows_def Let_def)

lemma selectRows_rejected:
  assumes "\<not> length (selectRowsNewSelection p s ids (orDefault True isSelected)
                     (orDefault False resetSelection)) < 2"
    and "\<not> canHaveMultipleSelection p"
  shows "selectRows p s ids isSelected resetSelection = s"
  using assms by (auto simp: selectRows_def Let_def)

lemma selectRows_frame:
  "lastRowToggled (selectRows p s ids isSelected resetSelection) = lastRowToggled s"
  "rowsLookup (selectRows p s ids isSelected resetSelection) = rowsLookup s"
  "visibleSortedRowIds (selectRows p s ids isSelected resetSelection) = visibleSortedRowIds s"
  by (simp_all add: selectRows_def Let_def setSelectionModel_def)

lemma selectRowsNewSelection_anchor:
  "selectRowsNewSelection p (s\<lparr>lastRowToggled := a\<rparr>) ids isSelected resetSelection
     = selectRowsNewSelection p s ids isSelected resetSelection"
  by (simp add: selectRowsNewSelection_def selectedIdsLookupSelector_def Let_def)

lemma fold_set_or_delete:
  "fold (\<lambda>rowId lookup.
           if isSelected then setProperty lookup (propertyKey rowId) rowId
           else deleteProperty lookup (propertyKey rowId)) ids obj
     = (if isSelected
        then fold (\<lambda>rowId lookup. setProperty lookup (propertyKey rowId) rowId) ids obj
        else fold (\<lambda>rowId lookup. deleteProperty lookup (propertyKey rowId)) ids obj)"
  by simp

text \<open>Without a reset, the new selection of \<^verbatim>\<open>selectRows\<close> comes from a well-formed lookup.\<close>

lemma selectRowsNewSelection_lookup:
  "\<exists>obj. keyedById obj
     \<and> selectRowsNewSelection p s ids isSelected False = objectValues obj
     \<and> fst ` set obj
         = (if isSelected
            then (propertyKey ` set (selection s)
                    \<union> propertyKey ` {x \<in> set ids. rowSelectable p x}) - {''__proto__''}
            else (propertyKey ` set (selection s)
                    - propertyKey ` {x \<in> set ids. rowSelectable p x}) - {''__proto__''})"
proof -
  define selectableIds where
    "selectableIds = (case isRowSelectable p of None \<Rightarrow> ids | Some f \<Rightarrow> filter f ids)"
  define start where "start = objectSpread (selectedIdsLookupSelector s)"
  define obj where
    "obj = fold (\<lambda>rowId lookup.
                   if isSelected then setProperty lookup (propertyKey rowId) rowId
                   else deleteProperty lookup (propertyKey rowId)) selectableIds start"
  have sel: "set selectableIds = {x \<in> set ids. rowSelectable p x}"
    by (auto simp: selectableIds_def rowSelectable_def split: option.splits)
  have k0: "keyedById start"
    unfolding start_def objectSpread_def by (rule keyedById_ownEntries [OF keyedById_lookup])
  have keys0: "fst ` set start = propertyKey ` set (selection s) - {''__proto__''}"
    unfolding start_def objectSpread_def by (simp add: set_ownEntries keys_lookup)
  have "keyedById obj"
    unfolding obj_def fold_set_or_delete
    using k0 by (simp add: keyedById_fold_set keyedById_fold_delete)
  moreover have "selectRowsNewSelection p s ids isSelected False = objectValues obj"
    by (simp add: selectRowsNewSelection_def Let_def obj_def start_def selectableIds_def)
  moreover have "fst ` set obj
         = (if isSelected
            then (propertyKey ` set (selection s)
                    \<union> propertyKey ` {x \<in> set ids. rowSelectable p x}) - {''__proto__''}
            else (propertyKey ` set (selection s)
                    - propertyKey ` {x \<in> set ids. rowSelectable p x}) - {''__proto__''})"
    unfolding obj_def fold_set_or_delete
    by (auto simp: keys_fold_set keys_fold_delete keys0 sel)
  ultimately show ?thesis by blast
qed

lemma keyedById_value_keys: "keyedById obj \<Longrightarrow> propertyKey ` set (objectValues obj) = fst ` set obj"
  by (force simp: keyedById_def set_objectValues)


lemma keys_selectRowsNewSelection:
  "propertyKey ` set (selectRowsNewSelection p s ids isSelected False)
     = (if isSelected
        then (propertyKey ` set (selection s)
                    \<union> propertyKey ` {x \<in> set ids. rowSelectable p x}) - {''__proto__''}
        else (propertyKey ` set (selection s)
                    - propertyKey ` {x \<in> set ids. rowSelectable p x}) - {''__proto__''})"
proof -
  from selectRowsNewSelection_lookup [of p s ids isSelected]
  obtain obj where "keyedById obj"
    and "selectRowsNewSelection p s ids isSelected False = objectValues obj"
    and "fst ` set obj
         = (if isSelected
            then (propertyKey ` set (selection s)
                    \<union> propertyKey ` {x \<in> set ids. rowSelectable p x}) - {''__proto__''}
            else (propertyKey ` set (selection s)
                    - propertyKey ` {x \<in> set ids. rowSelectable p x}) - {''__proto__''})"
    by blast
  then show ?thesis by (simp only: keyedById_value_keys)
qed

subsection \<open>Range selection\<close>

lemma selectRowRange_absent:
  "\<not> getRow s startId \<or> \<not> getRow s endId \<Longrightarrow>
   selectRowRange p s startId endId isSelected resetSelection = s"
  by (auto simp: selectRowRange_def Let_def)

lemma selectRowRange_present:
  assumes "getRow s startId" "getRow s endId"
  shows "selectRowRange p s startId endId isSelected resetSelection
     = selectRows p s
         (arraySlice (visibleSortedRowIds s)
            (min (indexOfMaybe (visibleSortedRowIds s) startId)
                 (indexOfMaybe (visibleSortedRowIds s) endId))
            (max (indexOfMaybe (visibleSortedRowIds s) startId)
                 (indexOfMaybe (visibleSortedRowIds s) endId) + 1))
         (Some (orDefault True isSelected)) resetSelection"
  using assms
  by (auto simp: selectRowRange_def Let_def visibleSortedGridRowIdsSelector_def min_def max_def)

lemma selectRowRange_frame:
  "lastRowToggled (selectRowRange p s startId endId isSelected resetSelection) = lastRowToggled s"
  "rowsLookup (selectRowRange p s startId endId isSelected resetSelection) = rowsLookup s"
  "visibleSortedRowIds (selectRowRange p s startId endId isSelected resetSelection)
     = visibleSortedRowIds s"
  by (cases "getRow s startId \<and> getRow s endId";
      auto simp: selectRowRange_absent selectRowRange_present selectRows_frame)+

lemma getRow_anchor: "getRow (s\<lparr>lastRowToggled := a\<rparr>) v = getRow s v"
  by (simp add: getRow_def split: option.splits)

lemma expandRowRangeSelection_frame:
  "lastRowToggled (expandRowRangeSelection p s rowId) = Some rowId"
  "rowsLookup (expandRowRangeSelection p s rowId) = rowsLookup s"
  "visibleSortedRowIds (expandRowRangeSelection p s rowId) = visibleSortedRowIds s"
  by (simp_all add: expandRowRangeSelection_def Let_def selectRowRange_frame)

text \<open>What \<^verbatim>\<open>expandRowRangeSelection\<close> passes on, for a row that is not selected yet.\<close>

lemma expandRowRangeSelection_unselected:
  "\<not> isRowSelected s rowId \<Longrightarrow>
   expandRowRangeSelection p s rowId
     = selectRowRange p (s\<lparr>lastRowToggled := Some rowId\<rparr>)
         (Some (case lastRowToggled s of None \<Rightarrow> rowId | Some a \<Rightarrow> a)) (Some rowId)
         (Some True) None"
  by (simp add: expandRowRangeSelection_def Let_def)

text \<open>And for a row that is selected.\<close>

lemma expandRowRangeSelection_selected:
  "isRowSelected s rowId \<Longrightarrow>
   expandRowRangeSelection p s rowId
     = selectRowRange p (s\<lparr>lastRowToggled := Some rowId\<rparr>)
         (Some (case lastRowToggled s of None \<Rightarrow> rowId | Some a \<Rightarrow> a))
         (arrayGet (visibleSortedRowIds s)
            (if indexOf (visibleSortedRowIds s)
                  (case lastRowToggled s of None \<Rightarrow> rowId | Some a \<Rightarrow> a)
                > indexOf (visibleSortedRowIds s) rowId
             then indexOf (visibleSortedRowIds s) rowId + 1
             else indexOf (visibleSortedRowIds s) rowId - 1))
         (Some False) None"
  by (simp add: expandRowRangeSelection_def Let_def visibleSortedGridRowIdsSelector_def)

subsection \<open>Event handlers\<close>

lemma handleRowClick_plain:
  assumes "\<not> disableSelectionOnClick p" "\<not> shiftKey event"
  shows "handleRowClick p s rowId event
     = (if \<not> canHaveMultipleSelection p
            \<or> (\<not> checkboxSelection p \<and> \<not> (metaKey event \<or> ctrlKey event))
        then selectRow p s rowId
               (Some (if (metaKey event \<or> ctrlKey event) \<or> checkboxSelection p
                      then \<not> isRowSelected s rowId else True))
               (Some True)
        else selectRow p s rowId (Some (\<not> isRowSelected s rowId)) (Some False))"
  using assms by (simp add: handleRowClick_def Let_def)

subsection \<open>Effects\<close>

lemma prune_fold:
  "fold (\<lambda>rowId (selectionLookup, hasChanged).
           if \<not> rows (propertyKey rowId)
           then (deleteProperty selectionLookup (propertyKey rowId), True)
           else (selectionLookup, hasChanged)) ids (obj, b)
     = (fold (\<lambda>rowId lookup. deleteProperty lookup (propertyKey rowId))
          (filter (\<lambda>rowId. \<not> rows (propertyKey rowId)) ids) obj,
        b \<or> (\<exists>rowId \<in> set ids. \<not> rows (propertyKey rowId)))"
  by (induction ids arbitrary: obj b) auto

lemma prunedLookup_eq:
  "prunedLookup s
     = (fold (\<lambda>rowId lookup. deleteProperty lookup (propertyKey rowId))
          (filter (\<lambda>rowId. \<not> rowsLookup s (propertyKey rowId)) (selection s))
          (objectSpread (selectedIdsLookupSelector s)),
        \<exists>rowId \<in> set (selection s). \<not> rowsLookup s (propertyKey rowId))"
  by (simp add: prunedLookup_def gridSelectionStateSelector_def prune_fold)

lemma rowsChangedEffect_unchanged:
  "\<forall>rowId \<in> set (selection s). rowsLookup s (propertyKey rowId) \<Longrightarrow> rowsChangedEffect p s = s"
  by (simp add: rowsChangedEffect_def prunedLookup_eq)

lemma rowsChangedEffect_changed:
  "\<exists>rowId \<in> set (selection s). \<not> rowsLookup s (propertyKey rowId) \<Longrightarrow>
   rowsChangedEffect p s
     = setSelectionModel p s
         (objectValues
            (fold (\<lambda>rowId lookup. deleteProperty lookup (propertyKey rowId))
               (filter (\<lambda>rowId. \<not> rowsLookup s (propertyKey rowId)) (selection s))
               (objectSpread (selectedIdsLookupSelector s)))) False"
  by (simp add: rowsChangedEffect_def prunedLookup_eq)

lemma length_fold_delete:
  "length (fold (\<lambda>rowId lookup. deleteProperty lookup (propertyKey rowId)) ids obj) \<le> length obj"
proof (induction ids arbitrary: obj)
  case Nil
  then show ?case by simp
next
  case (Cons x xs)
  from Cons.IH [of "deleteProperty obj (propertyKey x)"]
       length_deleteProperty [of obj "propertyKey x"]
  show ?case by simp
qed

lemma values_fold_delete:
  "set (fold (\<lambda>rowId lookup. deleteProperty lookup (propertyKey rowId)) ids obj) \<subseteq> set obj"
proof (induction ids arbitrary: obj)
  case Nil
  then show ?case by simp
next
  case (Cons x xs)
  from Cons.IH [of "deleteProperty obj (propertyKey x)"]
  show ?case by (auto simp: set_deleteProperty)
qed

lemma rowsChangedEffect_selection:
  "selection (rowsChangedEffect p s)
     = (if (\<exists>rowId \<in> set (selection s). \<not> rowsLookup s (propertyKey rowId))
           \<and> selectionModel p = None
        then objectValues
               (fold (\<lambda>rowId lookup. deleteProperty lookup (propertyKey rowId))
                  (filter (\<lambda>rowId. \<not> rowsLookup s (propertyKey rowId)) (selection s))
                  (objectSpread (selectedIdsLookupSelector s)))
        else selection s)"
proof (cases "\<exists>rowId \<in> set (selection s). \<not> rowsLookup s (propertyKey rowId)")
  case True
  then show ?thesis
    by (simp add: rowsChangedEffect_changed setSelectionModel_fields writeRefused_cases)
next
  case False
  then show ?thesis by (simp add: rowsChangedEffect_unchanged)
qed

lemma length_rowsChangedEffect:
  "length (selection (rowsChangedEffect p s)) \<le> length (selection s)"
proof -
  have "length (objectValues
               (fold (\<lambda>rowId lookup. deleteProperty lookup (propertyKey rowId))
                  (filter (\<lambda>rowId. \<not> rowsLookup s (propertyKey rowId)) (selection s))
                  (objectSpread (selectedIdsLookupSelector s))))
      \<le> length (objectSpread (selectedIdsLookupSelector s))"
    by (simp add: length_objectValues length_fold_delete)
  also have "\<dots> \<le> length (selection s)"
    by (simp add: objectSpread_def length_ownEntries length_lookup)
  finally show ?thesis by (simp add: rowsChangedEffect_selection)
qed

lemma length_isRowSelectableEffect:
  "length (selection (isRowSelectableEffect p s)) \<le> length (selection s)"
  by (simp add: isRowSelectableEffect_def Let_def gridSelectionStateSelector_def
      setSelectionModel_fields split: option.splits)

subsection \<open>At most one selected row when multiple selection is not possible\<close>

lemma single_selectRow:
  assumes "\<not> canHaveMultipleSelection p" "length (selection s) \<le> 1"
  shows "length (selection (selectRow p s rowId isSelected resetSelection)) \<le> 1"
  using assms
  by (auto simp: selectRow_def Let_def setSelectionModel_def selectRowNewSelection_anchor)

lemma single_selectRows:
  assumes "\<not> canHaveMultipleSelection p" "length (selection s) \<le> 1"
  shows "length (selection (selectRows p s ids isSelected resetSelection)) \<le> 1"
  using assms by (auto simp: selectRows_def Let_def setSelectionModel_def)

lemma single_selectRowRange:
  assumes "\<not> canHaveMultipleSelection p" "length (selection s) \<le> 1"
  shows "length (selection (selectRowRange p s startId endId isSelected resetSelection)) \<le> 1"
proof (cases "getRow s startId \<and> getRow s endId")
  case True
  then have "getRow s startId" "getRow s endId" by simp_all
  from selectRowRange_present [OF this] show ?thesis
    by (simp only: single_selectRows [OF assms])
next
  case False
  with assms show ?thesis by (simp add: selectRowRange_absent)
qed

lemma single_expandRowRangeSelection:
  assumes "\<not> canHaveMultipleSelection p" "length (selection s) \<le> 1"
  shows "length (selection (expandRowRangeSelection p s rowId)) \<le> 1"
  unfolding expandRowRangeSelection_def Let_def
  by (rule single_selectRowRange) (use assms in simp_all)

lemma single_handleRowClick:
  assumes "\<not> canHaveMultipleSelection p" "length (selection s) \<le> 1"
  shows "length (selection (handleRowClick p s rowId event)) \<le> 1"
proof (cases "disableSelectionOnClick p")
  case True
  with assms show ?thesis by (simp add: handleRowClick_def)
next
  case enabled: False
  show ?thesis
  proof (cases "shiftKey event \<and> (canHaveMultipleSelection p \<or> checkboxSelection p)")
    case True
    with enabled have "handleRowClick p s rowId event = expandRowRangeSelection p s rowId"
      by (simp add: handleRowClick_def Let_def)
    then show ?thesis by (simp only: single_expandRowRangeSelection [OF assms])
  next
    case False
    with enabled assms(1)
    have "handleRowClick p s rowId event
        = selectRow p s rowId
            (Some (if (metaKey event \<or> ctrlKey event) \<or> checkboxSelection p
                   then \<not> isRowSelected s rowId else True))
            (Some True)"
      by (auto simp: handleRowClick_def Let_def)
    then show ?thesis by (simp only: single_selectRow [OF assms])
  qed
qed

lemma single_handleRowSelectionCheckboxChange:
  assumes "\<not> canHaveMultipleSelection p" "length (selection s) \<le> 1"
  shows "length (selection (handleRowSelectionCheckboxChange p s rowId checked shift)) \<le> 1"
proof (cases shift)
  case True
  then have "handleRowSelectionCheckboxChange p s rowId checked shift
      = expandRowRangeSelection p s rowId"
    by (simp add: handleRowSelectionCheckboxChange_def)
  then show ?thesis by (simp only: single_expandRowRangeSelection [OF assms])
next
  case False
  then have "handleRowSelectionCheckboxChange p s rowId checked shift
      = selectRow p s rowId (Some checked) None"
    by (simp add: handleRowSelectionCheckboxChange_def)
  then show ?thesis by (simp only: single_selectRow [OF assms])
qed

lemma single_perform:
  assumes "\<not> canHaveMultipleSelection p" "length (selection s) \<le> 1"
    and "x \<noteq> SelectionModelPropChanged"
  shows "length (selection (perform p s x)) \<le> 1"
proof (cases x)
  case (SelectRow rowId isSelected resetSelection)
  then show ?thesis by (simp only: perform.simps single_selectRow [OF assms(1,2)])
next
  case (SelectRows ids isSelected resetSelection)
  then show ?thesis by (simp only: perform.simps single_selectRows [OF assms(1,2)])
next
  case (SelectRowRange startId endId isSelected resetSelection)
  then show ?thesis by (simp only: perform.simps single_selectRowRange [OF assms(1,2)])
next
  case (RowClick rowId event)
  then show ?thesis by (simp only: perform.simps single_handleRowClick [OF assms(1,2)])
next
  case (RowSelectionCheckboxChange rowId checked shift)
  then show ?thesis
    by (simp only: perform.simps single_handleRowSelectionCheckboxChange [OF assms(1,2)])
next
  case RowsChanged
  with assms(2) length_rowsChangedEffect [of p s] show ?thesis by simp
next
  case SelectionModelPropChanged
  with assms(3) show ?thesis by simp
next
  case IsRowSelectableChanged
  with assms(2) length_isRowSelectableEffect [of p s] show ?thesis by simp
qed

subsection \<open>What the rows-changed effect keeps\<close>

lemma rowsChangedEffect_keys:
  assumes "selectionModel p = None"
  shows "propertyKey ` set (selection (rowsChangedEffect p s))
           \<subseteq> {k \<in> propertyKey ` set (selection s). rowsLookup s k}"
    and "{k \<in> propertyKey ` set (selection s). rowsLookup s k \<and> k \<noteq> ''__proto__''}
           \<subseteq> propertyKey ` set (selection (rowsChangedEffect p s))"
proof -
  let ?absent = "filter (\<lambda>rowId. \<not> rowsLookup s (propertyKey rowId)) (selection s)"
  let ?obj = "fold (\<lambda>rowId lookup. deleteProperty lookup (propertyKey rowId)) ?absent
                (objectSpread (selectedIdsLookupSelector s))"
  have "keyedById (objectSpread (selectedIdsLookupSelector s))"
    unfolding objectSpread_def by (rule keyedById_ownEntries [OF keyedById_lookup])
  then have "keyedById ?obj" by (rule keyedById_fold_delete)
  then have "propertyKey ` set (objectValues ?obj) = fst ` set ?obj"
    by (rule keyedById_value_keys)
  also have "\<dots> = (propertyKey ` set (selection s) - {''__proto__''})
                      - propertyKey ` set ?absent"
    by (simp add: keys_fold_delete objectSpread_def set_ownEntries keys_lookup)
  also have "\<dots> = {k \<in> propertyKey ` set (selection s). rowsLookup s k \<and> k \<noteq> ''__proto__''}"
    by auto
  finally have pruned: "propertyKey ` set (objectValues ?obj)
      = {k \<in> propertyKey ` set (selection s). rowsLookup s k \<and> k \<noteq> ''__proto__''}" .
  show "propertyKey ` set (selection (rowsChangedEffect p s))
           \<subseteq> {k \<in> propertyKey ` set (selection s). rowsLookup s k}"
  proof (cases "\<exists>rowId \<in> set (selection s). \<not> rowsLookup s (propertyKey rowId)")
    case True
    with assms have "selection (rowsChangedEffect p s) = objectValues ?obj"
      by (simp add: rowsChangedEffect_selection)
    with pruned show ?thesis by auto
  next
    case False
    then show ?thesis by (auto simp: rowsChangedEffect_selection)
  qed
  show "{k \<in> propertyKey ` set (selection s). rowsLookup s k \<and> k \<noteq> ''__proto__''}
           \<subseteq> propertyKey ` set (selection (rowsChangedEffect p s))"
  proof (cases "\<exists>rowId \<in> set (selection s). \<not> rowsLookup s (propertyKey rowId)")
    case True
    with assms have "selection (rowsChangedEffect p s) = objectValues ?obj"
      by (simp add: rowsChangedEffect_selection)
    with pruned show ?thesis by auto
  next
    case False
    then show ?thesis by (auto simp: rowsChangedEffect_selection)
  qed
qed

lemma rowsChangedEffect_subset:
  "set (selection (rowsChangedEffect p s)) \<subseteq> set (selection s)"
proof -
  let ?absent = "filter (\<lambda>rowId. \<not> rowsLookup s (propertyKey rowId)) (selection s)"
  let ?obj = "fold (\<lambda>rowId lookup. deleteProperty lookup (propertyKey rowId)) ?absent
                (objectSpread (selectedIdsLookupSelector s))"
  have "set ?obj \<subseteq> set (selectedIdsLookupSelector s)"
    using values_fold_delete [of ?absent "objectSpread (selectedIdsLookupSelector s)"]
    by (simp add: objectSpread_def set_ownEntries)
  then have "snd ` set ?obj \<subseteq> set (selection s)"
    using values_lookup [of s] by blast
  then have "set (objectValues ?obj) \<subseteq> set (selection s)"
    by (simp only: set_objectValues)
  then show ?thesis by (simp add: rowsChangedEffect_selection)
qed

lemma rowsChangedEffect_calls:
  "setSelectionModelCalls (rowsChangedEffect p s)
     = (if \<exists>rowId \<in> set (selection s). \<not> rowsLookup s (propertyKey rowId)
        then setSelectionModelCalls s
               @ [objectValues
                    (fold (\<lambda>rowId lookup. deleteProperty lookup (propertyKey rowId))
                       (filter (\<lambda>rowId. \<not> rowsLookup s (propertyKey rowId)) (selection s))
                       (objectSpread (selectedIdsLookupSelector s)))]
        else setSelectionModelCalls s)"
proof (cases "\<exists>rowId \<in> set (selection s). \<not> rowsLookup s (propertyKey rowId)")
  case True
  then show ?thesis by (simp add: rowsChangedEffect_changed setSelectionModel_fields)
next
  case False
  then show ?thesis by (simp add: rowsChangedEffect_unchanged)
qed

subsection \<open>Duplicates and the visible order\<close>







text \<open>
  The order of the model after \<^verbatim>\<open>selectRows\<close> without reset is the order in which
  \<^verbatim>\<open>Object.values\<close> enumerates the lookup: ids that are array indices come first, in
  ascending order, and an id that is selected again keeps its place.
\<close>

lemma selectRows_numeric_ids_example:
  "selection (selectRows defaultProps (gridOf [NumId 2, NumId 1] [NumId 2] None) [NumId 1]
                (Some True) (Some False))
     = [NumId 1, NumId 2]"
  by code_simp

lemma selectRows_selected_again_example:
  "selection (selectRows defaultProps (gridOf [r1, r2, r3] [r1, r2] None) [r1]
                (Some True) (Some False))
     = [r1, r2]"
  by code_simp

subsection \<open>The selection after a call\<close>

lemma selectRow_toggle_selection:
  assumes "orDefault False resetSelection = False"
  shows "selection (selectRow p s rowId isSelected resetSelection)
     = (if rowSelectable p rowId \<and> selectionModel p = None
           \<and> (length (selectRowNewSelection s rowId (orDefault True isSelected)) < 2
                \<or> canHaveMultipleSelection p)
        then selectRowNewSelection s rowId (orDefault True isSelected)
        else selection s)"
  using assms
  by (auto simp: selectRow_def Let_def selectRowNewSelection_anchor setSelectionModel_fields
      writeRefused_cases)

lemma selectRow_reset_selection:
  "selection (selectRow p s rowId isSelected (Some True))
     = (if rowSelectable p rowId \<and> selectionModel p = None
        then (if orDefault True isSelected then [rowId] else [])
        else selection s)"
  by (auto simp: selectRow_def Let_def orDefault_def setSelectionModel_fields
      writeRefused_cases)

lemma selectRows_selection:
  "selection (selectRows p s ids isSelected resetSelection)
     = (if selectionModel p = None
           \<and> (length (selectRowsNewSelection p s ids (orDefault True isSelected)
                         (orDefault False resetSelection)) < 2
                \<or> canHaveMultipleSelection p)
        then selectRowsNewSelection p s ids (orDefault True isSelected)
               (orDefault False resetSelection)
        else selection s)"
  by (auto simp: selectRows_def Let_def setSelectionModel_fields writeRefused_cases)

text \<open>No call and no click changes the selection while the prop controls it.\<close>

lemma controlled_selectRow:
  "selectionModel p \<noteq> None \<Longrightarrow>
   selection (selectRow p s rowId isSelected resetSelection) = selection s"
  by (auto simp: selectRow_def Let_def setSelectionModel_fields writeRefused_cases)

lemma controlled_selectRows:
  "selectionModel p \<noteq> None \<Longrightarrow>
   selection (selectRows p s ids isSelected resetSelection) = selection s"
  by (auto simp: selectRows_selection)

lemma controlled_selectRowRange:
  assumes "selectionModel p \<noteq> None"
  shows "selection (selectRowRange p s startId endId isSelected resetSelection) = selection s"
proof (cases "getRow s startId \<and> getRow s endId")
  case True
  then have "getRow s startId" "getRow s endId" by simp_all
  from selectRowRange_present [OF this] assms show ?thesis
    by (simp add: controlled_selectRows)
next
  case False
  then show ?thesis by (simp add: selectRowRange_absent)
qed

lemma controlled_expandRowRangeSelection:
  "selectionModel p \<noteq> None \<Longrightarrow>
   selection (expandRowRangeSelection p s rowId) = selection s"
  by (simp add: expandRowRangeSelection_def Let_def controlled_selectRowRange)

lemma controlled_handleRowClick:
  "selectionModel p \<noteq> None \<Longrightarrow>
   selection (handleRowClick p s rowId event) = selection s"
  by (simp add: handleRowClick_def Let_def controlled_selectRow
      controlled_expandRowRangeSelection)

section \<open>The claims of the specification\<close>

text \<open>
  C1, as the spec states it: for every row id \<open>r\<close>, \<^verbatim>\<open>isRowSelected(r)\<close> is true after
  \<^verbatim>\<open>selectRow(r, true, false)\<close>. With multiple selection disabled and \<open>r1\<close> selected,
  \<^verbatim>\<open>selectRow(r2, true, false)\<close> is rejected by the guard of line 91 and \<open>r2\<close> is not
  selected afterwards.
\<close>

theorem selectRow_selected_counterexample:
  "\<not> isRowSelected
       (selectRow singleSelectionProps (gridOf [r1, r2] [r1] None) r2 (Some True) (Some False))
       r2"
  by code_simp

text \<open>
  C1, amended: a call \<^verbatim>\<open>selectRow(r, isSelected, false)\<close> is accepted when the
  selectability predicate, if there is one, accepts \<open>r\<close>, the selection is not
  controlled by the prop \<^verbatim>\<open>selectionModel\<close>, and multiple selection is possible or the
  new model would have fewer than two entries. After \<^verbatim>\<open>selectRow(r, true, false)\<close>,
  \<^verbatim>\<open>isRowSelected(r)\<close> is true exactly when the call is accepted or \<open>r\<close> was selected
  before; after \<^verbatim>\<open>selectRow(r, false, false)\<close> it is false exactly when the call is
  accepted or \<open>r\<close> was not selected before.
\<close>

theorem selectRow_then_isRowSelected:
  "(isRowSelected (selectRow p s r (Some True) (Some False)) r
      \<longleftrightarrow> isRowSelected s r
          \<or> (rowSelectable p r \<and> selectionModel p = None
              \<and> (canHaveMultipleSelection p \<or> length (selectRowNewSelection s r True) < 2)))
   \<and> (\<not> isRowSelected (selectRow p s r (Some False) (Some False)) r
      \<longleftrightarrow> \<not> isRowSelected s r
          \<or> (rowSelectable p r \<and> selectionModel p = None
              \<and> (canHaveMultipleSelection p \<or> length (selectRowNewSelection s r False) < 2)))"
proof -
  have on: "r \<in> set (selectRowNewSelection s r True)"
    and off: "r \<notin> set (selectRowNewSelection s r False)"
    by (simp_all add: selectRowNewSelection_def)
  have d: "orDefault False (Some False) = False" "orDefault True (Some True) = True"
    "orDefault True (Some False) = False"
    by (simp_all add: orDefault_def)
  have a: "isRowSelected (selectRow p s r (Some True) (Some False)) r
      \<longleftrightarrow> isRowSelected s r
          \<or> (rowSelectable p r \<and> selectionModel p = None
              \<and> (canHaveMultipleSelection p \<or> length (selectRowNewSelection s r True) < 2))"
    using on
    by (auto simp: isRowSelected_def gridSelectionStateSelector_def
        selectRow_toggle_selection [OF d(1)] d)
  have b: "\<not> isRowSelected (selectRow p s r (Some False) (Some False)) r
      \<longleftrightarrow> \<not> isRowSelected s r
          \<or> (rowSelectable p r \<and> selectionModel p = None
              \<and> (canHaveMultipleSelection p \<or> length (selectRowNewSelection s r False) < 2))"
    using off
    by (auto simp: isRowSelected_def gridSelectionStateSelector_def
        selectRow_toggle_selection [OF d(1)] d)
  from a b show ?thesis by blast
qed

theorem selectRow_then_isRowSelected_witness:
  "rowSelectable defaultProps r2
   \<and> selectionModel defaultProps = None
   \<and> canHaveMultipleSelection defaultProps
   \<and> isRowSelected
       (selectRow defaultProps (gridOf [r1, r2, r3] [r1] None) r2 (Some True) (Some False)) r2
   \<and> \<not> isRowSelected
       (selectRow defaultProps (gridOf [r1, r2, r3] [r2, r1] None) r2 (Some False) (Some False)) r2"
proof -
  have h: "rowSelectable defaultProps r2" "selectionModel defaultProps = None"
    "canHaveMultipleSelection defaultProps"
    by code_simp+
  from h selectRow_then_isRowSelected [of defaultProps "gridOf [r1, r2, r3] [r1] None" r2]
  have "isRowSelected
       (selectRow defaultProps (gridOf [r1, r2, r3] [r1] None) r2 (Some True) (Some False)) r2"
    by simp
  moreover
  from h selectRow_then_isRowSelected [of defaultProps "gridOf [r1, r2, r3] [r2, r1] None" r2]
  have "\<not> isRowSelected
       (selectRow defaultProps (gridOf [r1, r2, r3] [r2, r1] None) r2 (Some False) (Some False)) r2"
    by simp
  ultimately show ?thesis using h by simp
qed

text \<open>
  C2, as the spec states it: with multiple selection disabled and no checkbox selection,
  every operation, the synchronization with the prop \<^verbatim>\<open>selectionModel\<close> included, keeps
  the model at length at most 1. The effect of lines 305 to 311 passes the prop to
  \<^verbatim>\<open>setSelectionModel\<close> with no guard: a prop of two ids gives a model of two ids.
\<close>

theorem single_selection_counterexample:
  "disableMultipleSelection controlledSingleSelectionProps
   \<and> \<not> checkboxSelection controlledSingleSelectionProps
   \<and> selection
        (perform controlledSingleSelectionProps (gridOf [r1, r2, r3] [] None)
           SelectionModelPropChanged)
       = [r1, r2]"
  by code_simp

text \<open>
  C2, amended: when the disable-multiple-selection flag is set and checkbox selection
  is not active, \<^verbatim>\<open>selectRow\<close>, \<^verbatim>\<open>selectRows\<close>, \<^verbatim>\<open>selectRowRange\<close>, the click and checkbox
  handlers, the rows-changed effect and the selectability effect leave a model of
  length at most 1 at length at most 1, and a \<^verbatim>\<open>selectRow\<close> or \<^verbatim>\<open>selectRows\<close> call whose
  non-reset result would have 2 or more entries leaves the model unchanged. The
  synchronization with the prop is not bound by the flag: it installs the model that
  the prop gives, whatever its length.
\<close>

theorem single_selection_invariant:
  assumes "disableMultipleSelection p" "\<not> checkboxSelection p"
  shows
    "(length (selection s) \<le> 1 \<and> x \<noteq> SelectionModelPropChanged
        \<longrightarrow> length (selection (perform p s x)) \<le> 1)
     \<and> (2 \<le> length (selectRowNewSelection s rowId (orDefault True isSelected))
        \<longrightarrow> selection (selectRow p s rowId isSelected (Some False)) = selection s)
     \<and> (2 \<le> length (selectRowsNewSelection p s ids (orDefault True isSelected) False)
        \<longrightarrow> selection (selectRows p s ids isSelected (Some False)) = selection s)
     \<and> selection (perform p s SelectionModelPropChanged)
        = (case propSelectionModel p of None \<Rightarrow> selection s | Some model \<Rightarrow> model)"
proof -
  from assms have single: "\<not> canHaveMultipleSelection p"
    by (simp add: canHaveMultipleSelection_def)
  have a: "length (selection s) \<le> 1 \<and> x \<noteq> SelectionModelPropChanged
        \<longrightarrow> length (selection (perform p s x)) \<le> 1"
    using single_perform [OF single] by blast
  have b: "2 \<le> length (selectRowNewSelection s rowId (orDefault True isSelected))
        \<longrightarrow> selection (selectRow p s rowId isSelected (Some False)) = selection s"
  proof (cases "rowSelectable p rowId")
    case True
    then show ?thesis
      using single by (auto simp: selectRow_toggle_rejected orDefault_def)
  next
    case False
    then show ?thesis by (simp add: selectRow_unselectable)
  qed
  have c: "2 \<le> length (selectRowsNewSelection p s ids (orDefault True isSelected) False)
        \<longrightarrow> selection (selectRows p s ids isSelected (Some False)) = selection s"
    using single by (auto simp: selectRows_rejected orDefault_def)
  have d: "selection (perform p s SelectionModelPropChanged)
        = (case propSelectionModel p of None \<Rightarrow> selection s | Some model \<Rightarrow> model)"
    by (simp add: propSelectionModelEffect_def setSelectionModel_fields writeRefused_cases
        split: option.splits)
  from a b c d show ?thesis by blast
qed

theorem single_selection_invariant_witness:
  "disableMultipleSelection singleSelectionProps
   \<and> \<not> checkboxSelection singleSelectionProps
   \<and> length (selection (gridOf [r1, r2, r3] [r1] None)) \<le> 1
   \<and> length (selection (perform singleSelectionProps (gridOf [r1, r2, r3] [r1] None)
                          (RowClick r2 plainClick))) \<le> 1
   \<and> 2 \<le> length (selectRowNewSelection (gridOf [r1, r2, r3] [r1] None) r2 True)
   \<and> selection (selectRow singleSelectionProps (gridOf [r1, r2, r3] [r1] None) r2
                  (Some True) (Some False))
       = selection (gridOf [r1, r2, r3] [r1] None)
   \<and> 2 \<le> length (selectRowsNewSelection singleSelectionProps (gridOf [r1, r2, r3] [r1] None)
                    [r2, r3] True False)
   \<and> selection (selectRows singleSelectionProps (gridOf [r1, r2, r3] [r1] None) [r2, r3]
                  (Some True) (Some False))
       = selection (gridOf [r1, r2, r3] [r1] None)"
proof -
  let ?g = "gridOf [r1, r2, r3] [r1] None"
  have h: "disableMultipleSelection singleSelectionProps"
    "\<not> checkboxSelection singleSelectionProps"
    by code_simp+
  have pre: "length (selection ?g) \<le> 1" "RowClick r2 plainClick \<noteq> SelectionModelPropChanged"
    by code_simp+
  have d: "orDefault True (Some True) = True" by code_simp
  have two: "2 \<le> length (selectRowNewSelection ?g r2 True)"
    "2 \<le> length (selectRowsNewSelection singleSelectionProps ?g [r2, r3] True False)"
    by code_simp+
  from single_selection_invariant
         [OF h, where s = ?g and x = "RowClick r2 plainClick" and rowId = r2
            and isSelected = "Some True" and ids = "[r2, r3]"]
  show ?thesis using h pre two unfolding d by blast
qed

text \<open>
  C3, as the spec states it: for every pair of ids that both have a row,
  \<^verbatim>\<open>selectRowRange\<close> calls \<^verbatim>\<open>selectRows\<close> with the span between their indices in the
  visible sorted row ids, both included. A row can be filtered out of the visible ones:
  with the rows \<open>r1\<close> to \<open>r5\<close> of which \<open>r1\<close>, \<open>r2\<close> and \<open>r3\<close> are visible, the range from
  \<open>r2\<close> to \<open>r4\<close> selects nothing, not even \<open>r2\<close>.
\<close>

theorem selectRowRange_counterexample:
  "getRow filteredGrid (Some r2)
   \<and> getRow filteredGrid (Some r4)
   \<and> visibleSortedRowIds filteredGrid = [r1, r2, r3]
   \<and> selection (selectRowRange defaultProps filteredGrid (Some r2) (Some r4) (Some True) None)
       = []"
  by code_simp

text \<open>
  C3, amended: \<^verbatim>\<open>selectRowRange\<close> returns with the state as it was, and raises nothing,
  when one of the two ids has no row. When both ids have a row and both are among the
  visible sorted row ids, it calls \<^verbatim>\<open>selectRows\<close> with the visible ids at the positions
  from the index of the one to the index of the other, both included.
\<close>

theorem selectRowRange_delegates:
  "(\<not> getRow s startId \<or> \<not> getRow s endId
      \<longrightarrow> selectRowRange p s startId endId isSelected resetSelection = s)
   \<and> (getRow s (Some a) \<and> getRow s (Some b)
       \<and> a \<in> set (visibleSortedRowIds s) \<and> b \<in> set (visibleSortedRowIds s)
      \<longrightarrow> selectRowRange p s (Some a) (Some b) isSelected resetSelection
          = selectRows p s
              (map (\<lambda>k. visibleSortedRowIds s ! k)
                 [nat (min (indexOf (visibleSortedRowIds s) a)
                           (indexOf (visibleSortedRowIds s) b))
                  ..< Suc (nat (max (indexOf (visibleSortedRowIds s) a)
                                    (indexOf (visibleSortedRowIds s) b)))])
              (Some (orDefault True isSelected)) resetSelection
        \<and> visibleSortedRowIds s ! nat (indexOf (visibleSortedRowIds s) a) = a
        \<and> visibleSortedRowIds s ! nat (indexOf (visibleSortedRowIds s) b) = b)"
proof -
  let ?vis = "visibleSortedRowIds s"
  let ?i = "indexOf ?vis a" and ?j = "indexOf ?vis b"
  have visible: "selectRowRange p s (Some a) (Some b) isSelected resetSelection
          = selectRows p s (map (\<lambda>k. ?vis ! k) [nat (min ?i ?j) ..< Suc (nat (max ?i ?j))])
              (Some (orDefault True isSelected)) resetSelection
        \<and> ?vis ! nat ?i = a \<and> ?vis ! nat ?j = b"
    if rows: "getRow s (Some a)" "getRow s (Some b)" and a: "a \<in> set ?vis" and b: "b \<in> set ?vis"
  proof -
    from a b have pos: "0 \<le> ?i" "?vis ! nat ?i = a" "0 \<le> ?j" "?vis ! nat ?j = b"
      by (simp_all add: indexOf_present)
    then have "0 \<le> min ?i ?j" "min ?i ?j \<le> max ?i ?j" by simp_all
    moreover have "max ?i ?j < int (length ?vis)"
      using indexOf_upper [of ?vis a] indexOf_upper [of ?vis b] by simp
    ultimately have "arraySlice ?vis (min ?i ?j) (max ?i ?j + 1)
        = map (\<lambda>k. ?vis ! k) [nat (min ?i ?j) ..< Suc (nat (max ?i ?j))]"
      by (rule arraySlice_span)
    with selectRowRange_present [OF rows, of p isSelected resetSelection] pos
    show ?thesis by (simp add: indexOfMaybe_def)
  qed
  then show ?thesis
    using selectRowRange_absent [of s startId endId p isSelected resetSelection]
    by blast
qed

theorem selectRowRange_delegates_witness:
  "getRow (gridOf [r1, r2, r3, r4, r5] [] None) (Some r2)
   \<and> getRow (gridOf [r1, r2, r3, r4, r5] [] None) (Some r4)
   \<and> r2 \<in> set (visibleSortedRowIds (gridOf [r1, r2, r3, r4, r5] [] None))
   \<and> r4 \<in> set (visibleSortedRowIds (gridOf [r1, r2, r3, r4, r5] [] None))
   \<and> indexOf (visibleSortedRowIds (gridOf [r1, r2, r3, r4, r5] [] None)) r2 = 1
   \<and> indexOf (visibleSortedRowIds (gridOf [r1, r2, r3, r4, r5] [] None)) r4 = 3
   \<and> selectRowRange defaultProps (gridOf [r1, r2, r3, r4, r5] [] None) (Some r2) (Some r4)
        (Some True) None
       = selectRows defaultProps (gridOf [r1, r2, r3, r4, r5] [] None) [r2, r3, r4]
           (Some True) None
   \<and> selection (selectRows defaultProps (gridOf [r1, r2, r3, r4, r5] [] None) [r2, r3, r4]
                  (Some True) None) = [r2, r3, r4]
   \<and> \<not> getRow (gridOf [r1, r2, r3, r4, r5] [] None) (Some (StrId ''r9''))
   \<and> selectRowRange defaultProps (gridOf [r1, r2, r3, r4, r5] [] None) (Some r2)
        (Some (StrId ''r9'')) (Some True) None
       = gridOf [r1, r2, r3, r4, r5] [] None"
proof -
  let ?g = "gridOf [r1, r2, r3, r4, r5] [] None"
  have present: "getRow ?g (Some r2)" "getRow ?g (Some r4)"
    and visible: "r2 \<in> set (visibleSortedRowIds ?g)" "r4 \<in> set (visibleSortedRowIds ?g)"
    and absent: "\<not> getRow ?g (Some (StrId ''r9''))"
    by code_simp+
  have indices: "indexOf (visibleSortedRowIds ?g) r2 = 1"
    "indexOf (visibleSortedRowIds ?g) r4 = 3"
    by code_simp+
  have span: "map (\<lambda>k. visibleSortedRowIds ?g ! k)
       [nat (min (indexOf (visibleSortedRowIds ?g) r2) (indexOf (visibleSortedRowIds ?g) r4))
        ..< Suc (nat (max (indexOf (visibleSortedRowIds ?g) r2)
                          (indexOf (visibleSortedRowIds ?g) r4)))]
     = [r2, r3, r4]"
    by code_simp
  have d: "orDefault True (Some True) = True" by code_simp
  have result: "selection (selectRows defaultProps ?g [r2, r3, r4] (Some True) None)
      = [r2, r3, r4]"
    by code_simp
  from selectRowRange_delegates
         [where s = ?g and a = r2 and b = r4 and p = defaultProps
            and isSelected = "Some True" and resetSelection = None]
         present visible
  have "selectRowRange defaultProps ?g (Some r2) (Some r4) (Some True) None
      = selectRows defaultProps ?g [r2, r3, r4] (Some True) None"
    unfolding span d by blast
  moreover
  from selectRowRange_delegates
         [where s = ?g and startId = "Some r2" and endId = "Some (StrId ''r9'')"
            and p = defaultProps and isSelected = "Some True" and resetSelection = None]
         absent
  have "selectRowRange defaultProps ?g (Some r2) (Some (StrId ''r9'')) (Some True) None = ?g"
    by blast
  ultimately show ?thesis using present visible absent indices result by blast
qed

text \<open>
  C4: \<^verbatim>\<open>selectRowRange\<close> gives the same state for \<^verbatim>\<open>{startId: A, endId: B}\<close> and for
  \<^verbatim>\<open>{startId: B, endId: A}\<close>, wherever \<open>A\<close> and \<open>B\<close> are in the visible order.
\<close>

theorem selectRowRange_symmetric:
  "selectRowRange p s a b isSelected resetSelection
     = selectRowRange p s b a isSelected resetSelection"
proof (cases "getRow s a \<and> getRow s b")
  case True
  then show ?thesis by (simp add: selectRowRange_present min.commute max.commute)
next
  case False
  then show ?thesis by (auto simp: selectRowRange_absent)
qed

theorem selectRowRange_symmetric_witness:
  "getRow (gridOf [r1, r2, r3, r4, r5] [r1] None) (Some r2)
   \<and> getRow (gridOf [r1, r2, r3, r4, r5] [r1] None) (Some r4)
   \<and> selection (selectRowRange defaultProps (gridOf [r1, r2, r3, r4, r5] [r1] None)
                  (Some r4) (Some r2) (Some True) None)
       = [r1, r2, r3, r4]
   \<and> selection (selectRowRange defaultProps (gridOf [r1, r2, r3, r4, r5] [r1] None)
                  (Some r2) (Some r4) (Some True) None)
       = [r1, r2, r3, r4]"
proof -
  let ?g = "gridOf [r1, r2, r3, r4, r5] [r1] None"
  have present: "getRow ?g (Some r2)" "getRow ?g (Some r4)"
    by code_simp+
  have forwards: "selection (selectRowRange defaultProps ?g (Some r2) (Some r4) (Some True) None)
      = [r1, r2, r3, r4]"
    by code_simp
  with selectRowRange_symmetric [of defaultProps ?g "Some r4" "Some r2" "Some True" None]
  have "selection (selectRowRange defaultProps ?g (Some r4) (Some r2) (Some True) None)
      = [r1, r2, r3, r4]"
    by simp
  with present forwards show ?thesis by blast
qed

text \<open>
  C5, as the spec states it: a click without shift resets the model to the clicked row
  or toggles the row. The handler passes the click to \<^verbatim>\<open>selectRow\<close>, which returns at
  line 71 for a row that \<^verbatim>\<open>isRowSelectable\<close> rejects: with \<open>r1\<close> selected, a click on
  the unselectable \<open>r2\<close> leaves the model \<open>[r1]\<close>.
\<close>

theorem handleRowClick_counterexample:
  "\<not> disableSelectionOnClick r2UnselectableProps
   \<and> \<not> shiftKey plainClick
   \<and> selection (handleRowClick r2UnselectableProps (gridOf [r1, r2, r3] [r1] (Some r1)) r2
                  plainClick)
       = [r1]"
  by code_simp

text \<open>
  C5, amended: on a click (selection on click enabled, shift not held) on a row that the
  selectability predicate accepts, or with no predicate, in a grid whose selection is
  not controlled by the prop \<^verbatim>\<open>selectionModel\<close>: if multiple selection is not possible,
  or checkbox selection is off and neither ctrl nor meta is held, the model becomes the
  clicked row alone, or empty when ctrl, meta or checkbox selection is active and the
  row was selected; otherwise the clicked row is removed from the model if it was
  selected and appended if it was not, the other ids staying as they are. A click on a
  row that the predicate rejects changes nothing, and a click in a grid whose selection
  the prop controls leaves the model as it is. So with no predicate and no
  \<^verbatim>\<open>selectionModel\<close> prop, checkbox selection off, no modifiers and multiple selection
  disabled, clicking \<open>r1\<close> and then \<open>r2\<close> gives the model \<open>[r2]\<close>.
\<close>

theorem handleRowClick_policy:
  assumes "\<not> disableSelectionOnClick p" "\<not> shiftKey event"
  shows
    "(rowSelectable p rowId \<and> selectionModel p = None \<longrightarrow>
        selection (handleRowClick p s rowId event)
          = (if \<not> canHaveMultipleSelection p
                 \<or> (\<not> checkboxSelection p \<and> \<not> (metaKey event \<or> ctrlKey event))
             then (if (metaKey event \<or> ctrlKey event \<or> checkboxSelection p)
                       \<and> isRowSelected s rowId
                   then [] else [rowId])
             else filter (\<lambda>el. el \<noteq> rowId) (selection s)
                    @ (if isRowSelected s rowId then [] else [rowId])))
     \<and> (\<not> rowSelectable p rowId \<longrightarrow> handleRowClick p s rowId event = s)
     \<and> (selectionModel p \<noteq> None \<longrightarrow>
          selection (handleRowClick p s rowId event) = selection s)"
proof -
  have unselectable: "\<not> rowSelectable p rowId \<longrightarrow> handleRowClick p s rowId event = s"
    by (simp add: handleRowClick_plain [OF assms] selectRow_unselectable)
  have controlled: "selectionModel p \<noteq> None \<longrightarrow>
      selection (handleRowClick p s rowId event) = selection s"
    by (simp add: controlled_handleRowClick)
  have accepted: "selection (handleRowClick p s rowId event)
          = (if \<not> canHaveMultipleSelection p
                 \<or> (\<not> checkboxSelection p \<and> \<not> (metaKey event \<or> ctrlKey event))
             then (if (metaKey event \<or> ctrlKey event \<or> checkboxSelection p)
                       \<and> isRowSelected s rowId
                   then [] else [rowId])
             else filter (\<lambda>el. el \<noteq> rowId) (selection s)
                    @ (if isRowSelected s rowId then [] else [rowId]))"
    if sel: "rowSelectable p rowId" and free: "selectionModel p = None"
  proof (cases "\<not> canHaveMultipleSelection p
                 \<or> (\<not> checkboxSelection p \<and> \<not> (metaKey event \<or> ctrlKey event))")
    case True
    with sel free show ?thesis
      by (auto simp: handleRowClick_plain [OF assms] selectRow_reset_selection orDefault_def)
  next
    case False
    then have multi: "canHaveMultipleSelection p" by blast
    have d: "orDefault False (Some False) = False" by (simp add: orDefault_def)
    from False
    have "handleRowClick p s rowId event
        = selectRow p s rowId (Some (\<not> isRowSelected s rowId)) (Some False)"
      by (auto simp: handleRowClick_plain [OF assms])
    with sel free multi
    have toggled: "selection (handleRowClick p s rowId event)
        = filter (\<lambda>el. el \<noteq> rowId) (selection s)
            @ (if isRowSelected s rowId then [] else [rowId])"
      by (simp add: selectRow_toggle_selection [OF d] orDefault_def selectRowNewSelection_def
          gridSelectionStateSelector_def)
    show ?thesis
      by (simp only: if_not_P [OF False] toggled)
  qed
  from unselectable controlled accepted show ?thesis by blast
qed

theorem handleRowClick_policy_witness:
  "\<not> disableSelectionOnClick singleSelectionProps
   \<and> \<not> shiftKey plainClick
   \<and> rowSelectable singleSelectionProps r1
   \<and> rowSelectable singleSelectionProps r2
   \<and> selectionModel singleSelectionProps = None
   \<and> selection (handleRowClick singleSelectionProps (gridOf [r1, r2, r3] [] None) r1 plainClick)
       = [r1]
   \<and> selection
        (handleRowClick singleSelectionProps
           (handleRowClick singleSelectionProps (gridOf [r1, r2, r3] [] None) r1 plainClick)
           r2 plainClick)
       = [r2]
   \<and> \<not> rowSelectable r2UnselectableProps r2
   \<and> handleRowClick r2UnselectableProps (gridOf [r1, r2, r3] [r1] (Some r1)) r2 plainClick
       = gridOf [r1, r2, r3] [r1] (Some r1)
   \<and> selectionModel controlledProps \<noteq> None
   \<and> selection (handleRowClick controlledProps (gridOf [r1, r2, r3] [r1, r2] None) r3
                  plainClick)
       = selection (gridOf [r1, r2, r3] [r1, r2] None)"
proof -
  let ?g = "gridOf [r1, r2, r3] [] None"
  let ?g1 = "handleRowClick singleSelectionProps ?g r1 plainClick"
  have h: "\<not> disableSelectionOnClick singleSelectionProps" "\<not> shiftKey plainClick"
    and sel: "rowSelectable singleSelectionProps r1" "rowSelectable singleSelectionProps r2"
    and free: "selectionModel singleSelectionProps = None"
    and single: "\<not> canHaveMultipleSelection singleSelectionProps"
    and plain: "\<not> metaKey plainClick" "\<not> ctrlKey plainClick"
      "\<not> checkboxSelection singleSelectionProps"
    by code_simp+
  have h': "\<not> disableSelectionOnClick r2UnselectableProps"
    and unsel: "\<not> rowSelectable r2UnselectableProps r2"
    and h'': "\<not> disableSelectionOnClick controlledProps"
    and controlled: "selectionModel controlledProps \<noteq> None"
    by code_simp+
  from handleRowClick_policy [OF h, of r1 ?g] sel free single plain
  have first: "selection ?g1 = [r1]" by simp
  from handleRowClick_policy [OF h, of r2 ?g1] sel free single plain
  have second: "selection (handleRowClick singleSelectionProps ?g1 r2 plainClick) = [r2]"
    by simp
  from handleRowClick_policy
         [OF h' h(2), of r2 "gridOf [r1, r2, r3] [r1] (Some r1)"] unsel
  have third: "handleRowClick r2UnselectableProps (gridOf [r1, r2, r3] [r1] (Some r1)) r2
      plainClick = gridOf [r1, r2, r3] [r1] (Some r1)"
    by simp
  from handleRowClick_policy
         [OF h'' h(2), of r3 "gridOf [r1, r2, r3] [r1, r2] None"] controlled
  have fourth: "selection (handleRowClick controlledProps (gridOf [r1, r2, r3] [r1, r2] None)
      r3 plainClick) = selection (gridOf [r1, r2, r3] [r1, r2] None)"
    by blast
  from h sel free first second unsel third controlled fourth show ?thesis by blast
qed

text \<open>
  C6, as the spec states it: for a target that is not selected,
  \<^verbatim>\<open>expandRowRangeSelection\<close> selects the visible range from the anchor to the target,
  both included. The call goes through \<^verbatim>\<open>selectRowRange\<close> to \<^verbatim>\<open>selectRows\<close>, which
  drops the ids that \<^verbatim>\<open>isRowSelectable\<close> rejects (lines 104 to 106): with anchor \<open>r1\<close>,
  nothing selected, the visible order \<open>[r1, r2, r3]\<close> and \<open>r2\<close> unselectable, the target
  \<open>r3\<close> gives \<open>[r1, r3]\<close>.
\<close>

theorem expandRowRangeSelection_counterexample:
  "\<not> isRowSelected (gridOf [r1, r2, r3] [] (Some r1)) r3
   \<and> lastRowToggled (gridOf [r1, r2, r3] [] (Some r1)) = Some r1
   \<and> visibleSortedRowIds (gridOf [r1, r2, r3] [] (Some r1)) = [r1, r2, r3]
   \<and> selection (expandRowRangeSelection r2UnselectableProps (gridOf [r1, r2, r3] [] (Some r1))
                  r3)
       = [r1, r3]"
  by code_simp

text \<open>
  C6, amended: \<^verbatim>\<open>expandRowRangeSelection(id)\<close> sets the anchor to \<open>id\<close> and calls
  \<^verbatim>\<open>selectRowRange\<close> with the negation of the selected state of \<open>id\<close>: from the stored
  anchor (or \<open>id\<close> when there is none) to \<open>id\<close> when \<open>id\<close> is not selected, and to the
  visible row at the index of \<open>id\<close> plus one when the anchor is after \<open>id\<close>, at that
  index minus one otherwise, when \<open>id\<close> is selected. When \<open>id\<close> is not selected, the
  anchor and \<open>id\<close> both have a row and are both visible, multiple selection is possible
  and the selection is not controlled by the prop \<^verbatim>\<open>selectionModel\<close>, the property names
  of the ids selected afterwards are those of the ids selected before and of the
  selectable ids at the visible positions from the anchor to \<open>id\<close>, both included, but
  for the name \<^verbatim>\<open>__proto__\<close>. With anchor \<open>r1\<close>, nothing selected, no predicate, no
  \<^verbatim>\<open>selectionModel\<close> prop and the visible order \<open>[r1, r2, r3]\<close>, the target \<open>r3\<close> gives
  \<open>[r1, r2, r3]\<close>.
\<close>

theorem expandRowRangeSelection_shift_click:
  "(let visibleRowIds = visibleSortedRowIds s;
        startId = (case lastRowToggled s of None \<Rightarrow> rowId | Some a \<Rightarrow> a);
        startIndex = indexOf visibleRowIds startId;
        endIndex = indexOf visibleRowIds rowId;
        anchored = s\<lparr>lastRowToggled := Some rowId\<rparr>;
        after = expandRowRangeSelection p s rowId
    in lastRowToggled after = Some rowId
       \<and> (\<not> isRowSelected s rowId \<longrightarrow>
            after = selectRowRange p anchored (Some startId) (Some rowId) (Some True) None)
       \<and> (isRowSelected s rowId \<longrightarrow>
            after = selectRowRange p anchored (Some startId)
                      (arrayGet visibleRowIds
                         (if startIndex > endIndex then endIndex + 1 else endIndex - 1))
                      (Some False) None)
       \<and> (\<not> isRowSelected s rowId \<and> getRow s (Some startId) \<and> getRow s (Some rowId)
           \<and> startId \<in> set visibleRowIds \<and> rowId \<in> set visibleRowIds
           \<and> canHaveMultipleSelection p \<and> selectionModel p = None \<longrightarrow>
            propertyKey ` set (selection after)
              = (propertyKey ` set (selection s)
                 \<union> propertyKey `
                     {x \<in> set (map (\<lambda>k. visibleRowIds ! k)
                                  [nat (min startIndex endIndex)
                                   ..< Suc (nat (max startIndex endIndex))]).
                        rowSelectable p x})
                - {''__proto__''}))"
proof -
  let ?vis = "visibleSortedRowIds s"
  let ?start = "case lastRowToggled s of None \<Rightarrow> rowId | Some a \<Rightarrow> a"
  let ?i = "indexOf ?vis ?start" and ?j = "indexOf ?vis rowId"
  let ?anchored = "s\<lparr>lastRowToggled := Some rowId\<rparr>"
  let ?after = "expandRowRangeSelection p s rowId"
  let ?span = "map (\<lambda>k. ?vis ! k) [nat (min ?i ?j) ..< Suc (nat (max ?i ?j))]"
  have a: "lastRowToggled ?after = Some rowId"
    by (rule expandRowRangeSelection_frame)
  have b: "\<not> isRowSelected s rowId \<longrightarrow>
      ?after = selectRowRange p ?anchored (Some ?start) (Some rowId) (Some True) None"
    by (simp add: expandRowRangeSelection_unselected)
  have c: "isRowSelected s rowId \<longrightarrow>
      ?after = selectRowRange p ?anchored (Some ?start)
                 (arrayGet ?vis (if ?i > ?j then ?j + 1 else ?j - 1)) (Some False) None"
    using expandRowRangeSelection_selected [of s rowId p] by simp
  have d: "propertyKey ` set (selection ?after)
        = (propertyKey ` set (selection s)
           \<union> propertyKey ` {x \<in> set ?span. rowSelectable p x}) - {''__proto__''}"
    if unselected: "\<not> isRowSelected s rowId"
      and rows: "getRow s (Some ?start)" "getRow s (Some rowId)"
      and visible: "?start \<in> set ?vis" "rowId \<in> set ?vis"
      and multi: "canHaveMultipleSelection p"
      and free: "selectionModel p = None"
  proof -
    from rows have rows': "getRow ?anchored (Some ?start)" "getRow ?anchored (Some rowId)"
      by (simp_all add: getRow_anchor)
    from visible have "0 \<le> ?i" "0 \<le> ?j" by (simp_all add: indexOf_present)
    then have "0 \<le> min ?i ?j" "min ?i ?j \<le> max ?i ?j" by simp_all
    moreover have "max ?i ?j < int (length ?vis)"
      using indexOf_upper [of ?vis ?start] indexOf_upper [of ?vis rowId] by simp
    ultimately have slice: "arraySlice ?vis (min ?i ?j) (max ?i ?j + 1) = ?span"
      by (rule arraySlice_span)
    have "?after = selectRowRange p ?anchored (Some ?start) (Some rowId) (Some True) None"
      using unselected by (simp add: expandRowRangeSelection_unselected)
    also have "\<dots> = selectRows p ?anchored ?span (Some True) None"
      using slice by (simp add: selectRowRange_present [OF rows'] indexOfMaybe_def orDefault_def)
    finally have "selection ?after = selectRowsNewSelection p s ?span True False"
      using multi free
      by (simp add: selectRows_selection orDefault_def selectRowsNewSelection_anchor)
    then show ?thesis by (simp add: keys_selectRowsNewSelection)
  qed
  from a b c d show ?thesis unfolding Let_def by blast
qed

theorem expandRowRangeSelection_shift_click_witness:
  "\<not> isRowSelected (gridOf [r1, r2, r3] [] (Some r1)) r3
   \<and> getRow (gridOf [r1, r2, r3] [] (Some r1)) (Some r1)
   \<and> getRow (gridOf [r1, r2, r3] [] (Some r1)) (Some r3)
   \<and> r1 \<in> set (visibleSortedRowIds (gridOf [r1, r2, r3] [] (Some r1)))
   \<and> r3 \<in> set (visibleSortedRowIds (gridOf [r1, r2, r3] [] (Some r1)))
   \<and> canHaveMultipleSelection defaultProps
   \<and> selectionModel defaultProps = None
   \<and> propertyKey ` set (selection (expandRowRangeSelection defaultProps
                                      (gridOf [r1, r2, r3] [] (Some r1)) r3))
       = (propertyKey ` set (selection (gridOf [r1, r2, r3] [] (Some r1)))
          \<union> propertyKey ` {x \<in> set [r1, r2, r3]. rowSelectable defaultProps x})
         - {''__proto__''}
   \<and> lastRowToggled (expandRowRangeSelection defaultProps (gridOf [r1, r2, r3] [] (Some r1)) r3)
       = Some r3
   \<and> expandRowRangeSelection defaultProps (gridOf [r1, r2, r3] [] (Some r1)) r3
       = selectRowRange defaultProps ((gridOf [r1, r2, r3] [] (Some r1))\<lparr>lastRowToggled := Some r3\<rparr>)
           (Some r1) (Some r3) (Some True) None
   \<and> selection (selectRowRange defaultProps
                   ((gridOf [r1, r2, r3] [] (Some r1))\<lparr>lastRowToggled := Some r3\<rparr>)
                   (Some r1) (Some r3) (Some True) None)
       = [r1, r2, r3]
   \<and> isRowSelected (gridOf [r1, r2, r3] [r1, r2, r3] (Some r1)) r3
   \<and> expandRowRangeSelection defaultProps (gridOf [r1, r2, r3] [r1, r2, r3] (Some r1)) r3
       = selectRowRange defaultProps
           ((gridOf [r1, r2, r3] [r1, r2, r3] (Some r1))\<lparr>lastRowToggled := Some r3\<rparr>)
           (Some r1) (Some r2) (Some False) None
   \<and> selection (selectRowRange defaultProps
                   ((gridOf [r1, r2, r3] [r1, r2, r3] (Some r1))\<lparr>lastRowToggled := Some r3\<rparr>)
                   (Some r1) (Some r2) (Some False) None)
       = [r3]"
proof -
  let ?g = "gridOf [r1, r2, r3] [] (Some r1)"
  let ?f = "gridOf [r1, r2, r3] [r1, r2, r3] (Some r1)"
  have unselected: "\<not> isRowSelected ?g r3" and selected: "isRowSelected ?f r3"
    by code_simp+
  have conditions: "getRow ?g (Some r1)" "getRow ?g (Some r3)"
    "r1 \<in> set (visibleSortedRowIds ?g)" "r3 \<in> set (visibleSortedRowIds ?g)"
    "canHaveMultipleSelection defaultProps" "selectionModel defaultProps = None"
    by code_simp+
  have span: "map (\<lambda>k. visibleSortedRowIds ?g ! k)
       [nat (min (indexOf (visibleSortedRowIds ?g) r1) (indexOf (visibleSortedRowIds ?g) r3))
        ..< Suc (nat (max (indexOf (visibleSortedRowIds ?g) r1)
                          (indexOf (visibleSortedRowIds ?g) r3)))]
     = [r1, r2, r3]"
    by code_simp
  have anchor: "(case lastRowToggled ?g of None \<Rightarrow> r3 | Some a \<Rightarrow> a) = r1"
    "(case lastRowToggled ?f of None \<Rightarrow> r3 | Some a \<Rightarrow> a) = r1"
    by code_simp+
  have neighbour: "arrayGet (visibleSortedRowIds ?f)
       (if indexOf (visibleSortedRowIds ?f) r1 > indexOf (visibleSortedRowIds ?f) r3
        then indexOf (visibleSortedRowIds ?f) r3 + 1
        else indexOf (visibleSortedRowIds ?f) r3 - 1) = Some r2"
    by code_simp
  have results:
    "selection (selectRowRange defaultProps (?g\<lparr>lastRowToggled := Some r3\<rparr>)
                  (Some r1) (Some r3) (Some True) None) = [r1, r2, r3]"
    "selection (selectRowRange defaultProps (?f\<lparr>lastRowToggled := Some r3\<rparr>)
                  (Some r1) (Some r2) (Some False) None) = [r3]"
    by code_simp+
  from expandRowRangeSelection_shift_click [of ?g r3 defaultProps] unselected
  have extend: "lastRowToggled (expandRowRangeSelection defaultProps ?g r3) = Some r3"
    "expandRowRangeSelection defaultProps ?g r3
       = selectRowRange defaultProps (?g\<lparr>lastRowToggled := Some r3\<rparr>)
           (Some r1) (Some r3) (Some True) None"
    unfolding Let_def anchor by blast+
  from expandRowRangeSelection_shift_click [of ?g r3 defaultProps] unselected conditions
  have names: "propertyKey ` set (selection (expandRowRangeSelection defaultProps ?g r3))
       = (propertyKey ` set (selection ?g)
          \<union> propertyKey ` {x \<in> set [r1, r2, r3]. rowSelectable defaultProps x})
         - {''__proto__''}"
    unfolding Let_def anchor span by blast
  from expandRowRangeSelection_shift_click [of ?f r3 defaultProps] selected
  have contract: "expandRowRangeSelection defaultProps ?f r3
       = selectRowRange defaultProps (?f\<lparr>lastRowToggled := Some r3\<rparr>)
           (Some r1) (Some r2) (Some False) None"
    unfolding Let_def anchor neighbour by blast
  from unselected selected conditions names extend contract results show ?thesis by blast
qed

text \<open>
  C10, as the claim states it: on a selected target at index 0 with the anchor after it,
  \<^verbatim>\<open>endId\<close> is undefined and the model stays as it is. With the anchor after the target
  the branch of line 173 takes the row after the target, which exists: for the visible
  order \<open>[r1, r2, r3]\<close>, all three selected and the anchor \<open>r3\<close>, the target \<open>r1\<close> gives
  \<^verbatim>\<open>endId\<close> \<open>r2\<close>, and \<open>r2\<close> and \<open>r3\<close> are deselected.
\<close>

theorem expandRowRangeSelection_bounds_counterexample:
  "isRowSelected (gridOf [r1, r2, r3] [r1, r2, r3] (Some r3)) r1
   \<and> indexOf (visibleSortedRowIds (gridOf [r1, r2, r3] [r1, r2, r3] (Some r3))) r1 = 0
   \<and> indexOf (visibleSortedRowIds (gridOf [r1, r2, r3] [r1, r2, r3] (Some r3))) r3 = 2
   \<and> arrayGet (visibleSortedRowIds (gridOf [r1, r2, r3] [r1, r2, r3] (Some r3))) (0 + 1)
       = Some r2
   \<and> selection (gridOf [r1, r2, r3] [r1, r2, r3] (Some r3)) = [r1, r2, r3]
   \<and> selection (expandRowRangeSelection defaultProps
                   (gridOf [r1, r2, r3] [r1, r2, r3] (Some r3)) r1)
       = [r1]"
  by code_simp

text \<open>
  C10, amended: on an already selected row, \<^verbatim>\<open>expandRowRangeSelection(id)\<close> reads outside
  the visible row ids, and gets an undefined \<^verbatim>\<open>endId\<close>, exactly when the visible index of
  the target is at most 0 and the visible index of the anchor is not greater: the
  target is the first visible row and the anchor is the target itself or is not
  visible, or neither of them is visible. \<^verbatim>\<open>selectRowRange\<close> then returns at its check
  of the rows: nothing is raised, the selection model and the rest of the state are
  unchanged, and the anchor is \<open>id\<close>.
\<close>

theorem expandRowRangeSelection_undefined_end:
  assumes "isRowSelected s rowId"
  shows
    "(let visibleRowIds = visibleSortedRowIds s;
          startId = (case lastRowToggled s of None \<Rightarrow> rowId | Some a \<Rightarrow> a);
          startIndex = indexOf visibleRowIds startId;
          endIndex = indexOf visibleRowIds rowId
      in (arrayGet visibleRowIds
            (if startIndex > endIndex then endIndex + 1 else endIndex - 1) = None
          \<longleftrightarrow> startIndex \<le> endIndex \<and> endIndex \<le> 0)
         \<and> (startIndex \<le> endIndex \<and> endIndex \<le> 0 \<longrightarrow>
              expandRowRangeSelection p s rowId = s\<lparr>lastRowToggled := Some rowId\<rparr>))"
proof -
  let ?vis = "visibleSortedRowIds s"
  let ?start = "case lastRowToggled s of None \<Rightarrow> rowId | Some a \<Rightarrow> a"
  let ?i = "indexOf ?vis ?start" and ?j = "indexOf ?vis rowId"
  let ?endId = "arrayGet ?vis (if ?i > ?j then ?j + 1 else ?j - 1)"
  have bounds: "-1 \<le> ?j" "?j < int (length ?vis)" "?i < int (length ?vis)"
    by (rule indexOf_lower indexOf_upper)+
  have a: "?endId = None \<longleftrightarrow> ?i \<le> ?j \<and> ?j \<le> 0"
  proof (cases "?i > ?j")
    case True
    with bounds have "0 \<le> ?j + 1" "?j + 1 < int (length ?vis)" by linarith+
    with True show ?thesis by (simp add: arrayGet_None_iff)
  next
    case False
    with bounds show ?thesis by (auto simp: arrayGet_None_iff)
  qed
  have b: "expandRowRangeSelection p s rowId = s\<lparr>lastRowToggled := Some rowId\<rparr>"
    if "?i \<le> ?j \<and> ?j \<le> 0"
  proof -
    from that a have "?endId = None" by blast
    with assms expandRowRangeSelection_selected [of s rowId p]
    have "expandRowRangeSelection p s rowId
        = selectRowRange p (s\<lparr>lastRowToggled := Some rowId\<rparr>) (Some ?start) None
            (Some False) None"
      by simp
    then show ?thesis by (simp add: selectRowRange_absent getRow_def)
  qed
  from a b show ?thesis unfolding Let_def by blast
qed

theorem expandRowRangeSelection_undefined_end_witness:
  "isRowSelected (gridOf [r1, r2, r3] [r1] (Some r1)) r1
   \<and> indexOf (visibleSortedRowIds (gridOf [r1, r2, r3] [r1] (Some r1))) r1 = 0
   \<and> arrayGet (visibleSortedRowIds (gridOf [r1, r2, r3] [r1] (Some r1))) (0 - 1) = None
   \<and> expandRowRangeSelection defaultProps (gridOf [r1, r2, r3] [r1] (Some r1)) r1
       = (gridOf [r1, r2, r3] [r1] (Some r1))\<lparr>lastRowToggled := Some r1\<rparr>"
proof -
  let ?g = "gridOf [r1, r2, r3] [r1] (Some r1)"
  have selected: "isRowSelected ?g r1" by code_simp
  have anchor: "(case lastRowToggled ?g of None \<Rightarrow> r1 | Some a \<Rightarrow> a) = r1" by code_simp
  have index: "indexOf (visibleSortedRowIds ?g) r1 = 0" by code_simp
  have outside: "arrayGet (visibleSortedRowIds ?g) (0 - 1) = None" by code_simp
  from expandRowRangeSelection_undefined_end [OF selected, of defaultProps]
  have "expandRowRangeSelection defaultProps ?g r1 = ?g\<lparr>lastRowToggled := Some r1\<rparr>"
    unfolding Let_def anchor index by simp
  with selected index outside show ?thesis by blast
qed

text \<open>
  C7, as the spec states it: the rows-changed effect removes from the selection model
  every id that has no row any more. The pruned model goes through \<^verbatim>\<open>setSelectionModel\<close>
  to the controlled-state mechanism, which refuses it while the prop \<^verbatim>\<open>selectionModel\<close>
  is set: with the prop \<open>[r1, r2]\<close>, the model \<open>[r1, r2]\<close> and the row \<open>r2\<close> removed, the
  effect calls \<^verbatim>\<open>setSelectionModel\<close> with \<open>[r1]\<close> and the model stays \<open>[r1, r2]\<close>.
\<close>

theorem rowsChangedEffect_counterexample:
  "selection (gridOf [r1, r3] [r1, r2] None) = [r1, r2]
   \<and> \<not> rowsLookup (gridOf [r1, r3] [r1, r2] None) (propertyKey r2)
   \<and> selectionModel controlledProps = Some (IdArray [r1, r2])
   \<and> setSelectionModelCalls (rowsChangedEffect controlledProps (gridOf [r1, r3] [r1, r2] None))
       = [[r1]]
   \<and> selection (rowsChangedEffect controlledProps (gridOf [r1, r3] [r1, r2] None)) = [r1, r2]"
  by code_simp

text \<open>
  C7, amended: the rows-changed effect calls \<^verbatim>\<open>setSelectionModel\<close>, once, exactly when the
  model holds an id without a row; when every selected id has a row the state is as
  before. In a grid whose selection is not controlled by the prop \<^verbatim>\<open>selectionModel\<close> the
  pruned model is installed: afterwards every selected id has a row, and every id of
  the old model that has a row is still selected, by its property name (but for the
  name \<^verbatim>\<open>__proto__\<close>). No id is ever added. In a grid whose selection the prop controls,
  the model stays as it was.
\<close>

theorem rowsChangedEffect_prunes:
  "(selectionModel p = None \<longrightarrow>
      (\<forall>rowId \<in> set (selection (rowsChangedEffect p s)). rowsLookup s (propertyKey rowId)))
   \<and> (selectionModel p = None \<longrightarrow>
        {k \<in> propertyKey ` set (selection s). rowsLookup s k \<and> k \<noteq> ''__proto__''}
          \<subseteq> propertyKey ` set (selection (rowsChangedEffect p s)))
   \<and> set (selection (rowsChangedEffect p s)) \<subseteq> set (selection s)
   \<and> (selectionModel p \<noteq> None \<longrightarrow> selection (rowsChangedEffect p s) = selection s)
   \<and> (setSelectionModelCalls (rowsChangedEffect p s) \<noteq> setSelectionModelCalls s
        \<longleftrightarrow> (\<exists>rowId \<in> set (selection s). \<not> rowsLookup s (propertyKey rowId)))
   \<and> ((\<exists>rowId \<in> set (selection s). \<not> rowsLookup s (propertyKey rowId)) \<longrightarrow>
        length (setSelectionModelCalls (rowsChangedEffect p s))
          = Suc (length (setSelectionModelCalls s)))
   \<and> ((\<exists>rowId \<in> set (selection s). \<not> rowsLookup s (propertyKey rowId))
       \<and> selectionModel p = None \<longrightarrow>
        setSelectionModelCalls (rowsChangedEffect p s)
          = setSelectionModelCalls s @ [selection (rowsChangedEffect p s)])
   \<and> ((\<forall>rowId \<in> set (selection s). rowsLookup s (propertyKey rowId)) \<longrightarrow>
        rowsChangedEffect p s = s)"
proof -
  let ?after = "selection (rowsChangedEffect p s)"
  have a: "\<forall>rowId \<in> set ?after. rowsLookup s (propertyKey rowId)"
    if free: "selectionModel p = None"
  proof
    fix rowId
    assume "rowId \<in> set ?after"
    then have "propertyKey rowId \<in> propertyKey ` set ?after" by (rule imageI)
    with rowsChangedEffect_keys(1) [OF free, of s]
    show "rowsLookup s (propertyKey rowId)" by blast
  qed
  have b: "{k \<in> propertyKey ` set (selection s). rowsLookup s k \<and> k \<noteq> ''__proto__''}
          \<subseteq> propertyKey ` set ?after"
    if "selectionModel p = None"
    using that by (rule rowsChangedEffect_keys(2))
  have c: "set ?after \<subseteq> set (selection s)"
    by (rule rowsChangedEffect_subset)
  have d: "selectionModel p \<noteq> None \<longrightarrow> ?after = selection s"
    by (simp add: rowsChangedEffect_selection)
  have e: "setSelectionModelCalls (rowsChangedEffect p s) \<noteq> setSelectionModelCalls s
        \<longleftrightarrow> (\<exists>rowId \<in> set (selection s). \<not> rowsLookup s (propertyKey rowId))"
    by (simp add: rowsChangedEffect_calls)
  have f: "(\<exists>rowId \<in> set (selection s). \<not> rowsLookup s (propertyKey rowId)) \<longrightarrow>
        length (setSelectionModelCalls (rowsChangedEffect p s))
          = Suc (length (setSelectionModelCalls s))"
    by (simp add: rowsChangedEffect_calls)
  have g: "(\<exists>rowId \<in> set (selection s). \<not> rowsLookup s (propertyKey rowId))
       \<and> selectionModel p = None \<longrightarrow>
        setSelectionModelCalls (rowsChangedEffect p s)
          = setSelectionModelCalls s @ [?after]"
    by (simp add: rowsChangedEffect_calls rowsChangedEffect_selection)
  have h: "(\<forall>rowId \<in> set (selection s). rowsLookup s (propertyKey rowId)) \<longrightarrow>
        rowsChangedEffect p s = s"
    by (simp add: rowsChangedEffect_unchanged)
  from a b c d e f g h show ?thesis by blast
qed

theorem rowsChangedEffect_prunes_witness:
  "selectionModel defaultProps = None
   \<and> r2 \<in> set (selection (gridOf [r1, r3] [r3, r2, r1] None))
   \<and> \<not> rowsLookup (gridOf [r1, r3] [r3, r2, r1] None) (propertyKey r2)
   \<and> selection (rowsChangedEffect defaultProps (gridOf [r1, r3] [r3, r2, r1] None)) = [r3, r1]
   \<and> rowsLookup (gridOf [r1, r3] [r3, r2, r1] None) (propertyKey r3)
   \<and> rowsLookup (gridOf [r1, r3] [r3, r2, r1] None) (propertyKey r1)
   \<and> setSelectionModelCalls (rowsChangedEffect defaultProps (gridOf [r1, r3] [r3, r2, r1] None))
       = setSelectionModelCalls (gridOf [r1, r3] [r3, r2, r1] None)
           @ [selection (rowsChangedEffect defaultProps (gridOf [r1, r3] [r3, r2, r1] None))]
   \<and> rowsLookup (gridOf [r1, r2, r3] [r3, r1] None) (propertyKey r3)
   \<and> rowsLookup (gridOf [r1, r2, r3] [r3, r1] None) (propertyKey r1)
   \<and> rowsChangedEffect defaultProps (gridOf [r1, r2, r3] [r3, r1] None)
       = gridOf [r1, r2, r3] [r3, r1] None
   \<and> selectionModel controlledProps \<noteq> None
   \<and> selection (rowsChangedEffect controlledProps (gridOf [r1, r3] [r1, r2] None))
       = selection (gridOf [r1, r3] [r1, r2] None)"
proof -
  let ?g = "gridOf [r1, r3] [r3, r2, r1] None"
  let ?f = "gridOf [r1, r2, r3] [r3, r1] None"
  let ?c = "gridOf [r1, r3] [r1, r2] None"
  have free: "selectionModel defaultProps = None"
    and controlled: "selectionModel controlledProps \<noteq> None"
    by code_simp+
  have gone: "r2 \<in> set (selection ?g)" "\<not> rowsLookup ?g (propertyKey r2)"
    by code_simp+
  then have some: "\<exists>rowId \<in> set (selection ?g). \<not> rowsLookup ?g (propertyKey rowId)"
    by blast
  have kept: "rowsLookup ?g (propertyKey r3)" "rowsLookup ?g (propertyKey r1)"
    by code_simp+
  have rows: "rowsLookup ?f (propertyKey r3)" "rowsLookup ?f (propertyKey r1)"
    by code_simp+
  have "selection ?f = [r3, r1]" by code_simp
  with rows have all: "\<forall>rowId \<in> set (selection ?f). rowsLookup ?f (propertyKey rowId)"
    by simp
  have result: "selection (rowsChangedEffect defaultProps ?g) = [r3, r1]"
    by code_simp
  from rowsChangedEffect_prunes [of defaultProps ?g] free some
  have "setSelectionModelCalls (rowsChangedEffect defaultProps ?g)
       = setSelectionModelCalls ?g @ [selection (rowsChangedEffect defaultProps ?g)]"
    by blast
  moreover from rowsChangedEffect_prunes [of defaultProps ?f] all
  have "rowsChangedEffect defaultProps ?f = ?f" by blast
  moreover from rowsChangedEffect_prunes [of controlledProps ?c] controlled
  have "selection (rowsChangedEffect controlledProps ?c) = selection ?c" by blast
  ultimately show ?thesis using free controlled gone kept rows result by blast
qed

text \<open>
  C9: \<^verbatim>\<open>selectRow(id, isSelected, false)\<close> returns the state as it is, anchor included,
  for a row that the selectability predicate rejects. For every other row the anchor
  is \<open>id\<close> afterwards, also when the guard for multiple selection drops the update:
  then the anchor is the only part of the state that has changed.
\<close>

theorem selectRow_anchor_frame:
  "(\<not> rowSelectable p rowId \<longrightarrow> selectRow p s rowId isSelected (Some False) = s)
   \<and> (rowSelectable p rowId \<longrightarrow>
        lastRowToggled (selectRow p s rowId isSelected (Some False)) = Some rowId)
   \<and> (rowSelectable p rowId \<and> \<not> canHaveMultipleSelection p
       \<and> 2 \<le> length (selectRowNewSelection s rowId (orDefault True isSelected)) \<longrightarrow>
        selectRow p s rowId isSelected (Some False) = s\<lparr>lastRowToggled := Some rowId\<rparr>)"
proof -
  have "rowSelectable p rowId \<and> \<not> canHaveMultipleSelection p
       \<and> 2 \<le> length (selectRowNewSelection s rowId (orDefault True isSelected)) \<longrightarrow>
        selectRow p s rowId isSelected (Some False) = s\<lparr>lastRowToggled := Some rowId\<rparr>"
    by (auto simp: selectRow_toggle_rejected orDefault_def)
  then show ?thesis
    by (simp add: selectRow_unselectable selectRow_anchor_cases)
qed

theorem selectRow_anchor_frame_witness:
  "rowSelectable singleSelectionProps r2
   \<and> \<not> canHaveMultipleSelection singleSelectionProps
   \<and> 2 \<le> length (selectRowNewSelection (gridOf [r1, r2, r3] [r1] (Some r1)) r2 True)
   \<and> selectRow singleSelectionProps (gridOf [r1, r2, r3] [r1] (Some r1)) r2 (Some True)
        (Some False)
       = (gridOf [r1, r2, r3] [r1] (Some r1))\<lparr>lastRowToggled := Some r2\<rparr>
   \<and> lastRowToggled (selectRow singleSelectionProps (gridOf [r1, r2, r3] [r1] (Some r1)) r2
                        (Some True) (Some False)) = Some r2
   \<and> \<not> rowSelectable r2UnselectableProps r2
   \<and> selectRow r2UnselectableProps (gridOf [r1, r2, r3] [r1] (Some r1)) r2 (Some True)
        (Some False)
       = gridOf [r1, r2, r3] [r1] (Some r1)"
proof -
  let ?g = "gridOf [r1, r2, r3] [r1] (Some r1)"
  have h: "rowSelectable singleSelectionProps r2"
    "\<not> canHaveMultipleSelection singleSelectionProps"
    "2 \<le> length (selectRowNewSelection ?g r2 True)"
    and unsel: "\<not> rowSelectable r2UnselectableProps r2"
    by code_simp+
  have d: "orDefault True (Some True) = True" by code_simp
  from selectRow_anchor_frame [of singleSelectionProps r2 ?g "Some True"] h
  have "selectRow singleSelectionProps ?g r2 (Some True) (Some False)
       = ?g\<lparr>lastRowToggled := Some r2\<rparr>"
    "lastRowToggled (selectRow singleSelectionProps ?g r2 (Some True) (Some False)) = Some r2"
    unfolding d by blast+
  moreover from selectRow_anchor_frame [of r2UnselectableProps r2 ?g "Some True"] unsel
  have "selectRow r2UnselectableProps ?g r2 (Some True) (Some False) = ?g"
    by blast
  ultimately show ?thesis using h unsel by blast
qed




end
